theory Spec2Isabelle
  imports Main
begin

section \<open>Python values and exceptions\<close>

text \<open>
  Values decoded from JSON (\<open>response.json()\<close>, \<open>json.load\<close>). Python's \<open>None\<close> is
  \<open>JNull\<close>. A \<open>dict\<close> is the list of its items in insertion order; its keys are strings.
  A \<open>str\<close> is the list of the bytes of its UTF-8 encoding, so that a character (a code
  point) of the text is one byte below 128, or a leading byte followed by its continuation
  bytes. JSON numbers are integers here: floating point values are not modelled.
\<close>

datatype json =
    JNull
  | JBool bool
  | JInt int
  | JStr string
  | JArr "json list"
  | JObj "(string \<times> json) list"

text \<open>
  A piece of formatted text: literal characters, the \<open>str()\<close> of a value interpolated by
  an f-string, or the raw bytes of a response.
\<close>

datatype frag = Txt string | Fmt json | Bytes string

type_synonym ftext = "frag list"

datatype exn =
    RequestError ftext
  | QCMError string
  | KeyError string
  | TypeError
  | IndexError
  | ValueError
  | JSONDecodeError
  | FileNotFoundError
  | PermissionError
  | UnicodeEncodeError
  | AttributeError
  | UnboundLocalError
  | ConnectionError

fun is_QCMError :: "exn \<Rightarrow> bool" where
  "is_QCMError (QCMError m) = True"
| "is_QCMError e = False"

subsection \<open>Operators of the language on decoded values\<close>

fun starts_with :: "string \<Rightarrow> string \<Rightarrow> bool" where
  "starts_with [] s = True"
| "starts_with (p # ps) [] = False"
| "starts_with (p # ps) (c # cs) = (p = c \<and> starts_with ps cs)"

fun contains_str :: "string \<Rightarrow> string \<Rightarrow> bool" where
  "contains_str p [] = (p = [])"
| "contains_str p (c # cs) = (starts_with p (c # cs) \<or> contains_str p cs)"

text \<open>\<open>k in v\<close> for a string \<open>k\<close>: key of a dict, element of a list, substring of a string.\<close>

fun py_in :: "string \<Rightarrow> json \<Rightarrow> exn + bool" where
  "py_in k (JObj kv) = Inr (k \<in> set (map fst kv))"
| "py_in k (JArr xs) = Inr (JStr k \<in> set xs)"
| "py_in k (JStr s) = Inr (contains_str k s)"
| "py_in k v = Inl TypeError"

text \<open>\<open>v[k]\<close> for a string \<open>k\<close>.\<close>

fun getitem :: "json \<Rightarrow> string \<Rightarrow> exn + json" where
  "getitem (JObj kv) k = (case map_of kv k of None \<Rightarrow> Inl (KeyError k) | Some v \<Rightarrow> Inr v)"
| "getitem v k = Inl TypeError"

text \<open>
  The characters of a text: a continuation byte (\<open>10xxxxxx\<close>) belongs to the character
  of the byte before it.
\<close>

definition is_cont :: "char \<Rightarrow> bool" where
  "is_cont c = (128 \<le> (of_char c :: nat) \<and> (of_char c :: nat) < 192)"

fun code_points :: "string \<Rightarrow> string list" where
  "code_points [] = []"
| "code_points (c # cs) =
     (case code_points cs of
        [] \<Rightarrow> [[c]]
      | g # gs \<Rightarrow>
          (case g of
             [] \<Rightarrow> [c] # gs
           | b # bs \<Rightarrow> if is_cont b then (c # g) # gs else [c] # g # gs))"

text \<open>\<open>v[0]\<close>. A dict decoded from JSON has no integer key.\<close>

fun getitem0 :: "json \<Rightarrow> exn + json" where
  "getitem0 (JArr []) = Inl IndexError"
| "getitem0 (JArr (x # xs)) = Inr x"
| "getitem0 (JStr s) = (case code_points s of [] \<Rightarrow> Inl IndexError | g # gs \<Rightarrow> Inr (JStr g))"
| "getitem0 (JObj kv) = Inl (KeyError ''0'')"
| "getitem0 v = Inl TypeError"

text \<open>Truth value of a value in a condition.\<close>

fun truthy :: "json \<Rightarrow> bool" where
  "truthy JNull = False"
| "truthy (JBool b) = b"
| "truthy (JInt n) = (n \<noteq> 0)"
| "truthy (JStr s) = (s \<noteq> [])"
| "truthy (JArr xs) = (xs \<noteq> [])"
| "truthy (JObj kv) = (kv \<noteq> [])"

fun py_len :: "json \<Rightarrow> exn + int" where
  "py_len (JStr s) = Inr (int (length (code_points s)))"
| "py_len (JArr xs) = Inr (int (length xs))"
| "py_len (JObj kv) = Inr (int (length kv))"
| "py_len v = Inl TypeError"

text \<open>The items a \<open>for\<close> loop visits.\<close>

fun py_iter :: "json \<Rightarrow> exn + json list" where
  "py_iter (JArr xs) = Inr xs"
| "py_iter (JStr s) = Inr (map JStr (code_points s))"
| "py_iter (JObj kv) = Inr (map (\<lambda>p. JStr (fst p)) kv)"
| "py_iter v = Inl TypeError"

text \<open>\<open>d[k] = v\<close> on a dict: an existing key keeps its place, a new one goes last.\<close>

fun dict_set :: "(string \<times> json) list \<Rightarrow> string \<Rightarrow> json \<Rightarrow> (string \<times> json) list" where
  "dict_set [] k v = [(k, v)]"
| "dict_set (p # ps) k v = (if fst p = k then (k, v) # ps else p # dict_set ps k v)"

fun setitem :: "json \<Rightarrow> string \<Rightarrow> json \<Rightarrow> exn + json" where
  "setitem (JObj kv) k v = Inr (JObj (dict_set kv k v))"
| "setitem d k v = Inl TypeError"

text \<open>\<open>a + b\<close> where \<open>a\<close> is a string: \<open>b\<close> has to be a string too.\<close>

fun str_add :: "string \<Rightarrow> json \<Rightarrow> exn + string" where
  "str_add a (JStr b) = Inr (a @ b)"
| "str_add a v = Inl TypeError"

definition ebind :: "exn + 'a \<Rightarrow> ('a \<Rightarrow> exn + 'b) \<Rightarrow> exn + 'b" where
  "ebind m f = (case m of Inl e \<Rightarrow> Inl e | Inr x \<Rightarrow> f x)"

section \<open>The world outside the module\<close>

datatype level = DEBUG | INFO | WARNING | CRITICAL

datatype log_arg = LJson json | LText ftext | LExn exn

text \<open>A call of the logger: its level, its message and the arguments of the message.\<close>

record log_entry =
  log_level :: level
  log_msg :: log_arg
  log_args :: "log_arg list"

record request =
  url :: ftext
  data :: ftext
  headers :: "(string \<times> json) list"
  timeout :: int

text \<open>
  What \<open>requests.post\<close> followed by \<open>response.json()\<close> can do: the post raises, the body
  is not JSON (its bytes are kept), or the body decodes.
\<close>

datatype http_outcome = NetFail | NotJson string | Body json

text \<open>The file \<open>qcm.json\<close> as \<open>open\<close> and \<open>json.load\<close> see it.\<close>

datatype file_state = Missing | Unreadable | Malformed | Content json

record event =
  event_type :: string
  event_data :: "(string \<times> json) list"

text \<open>
  The parts of the environment that the module does not define: the provider, whose
  answer to the n-th request of a run is \<open>http n\<close>; the codecs of the standard library,
  \<open>b64decode s\<close> for \<open>base64.b64decode(s).decode("utf-8")\<close> (\<open>None\<close> where that raises),
  \<open>b64encode s\<close> for \<open>base64.b64encode(bytes(s, "utf-8")).decode("ascii")\<close> and
  \<open>quote s\<close> for \<open>urllib.parse.quote(s, safe="")\<close>; \<open>lower s\<close> for \<open>s.lower()\<close> on a text
  \<open>s\<close> that has characters outside ASCII, where the result is read from the tables of
  Unicode; what opening \<open>qcm.json\<close> for writing and \<open>json.dump\<close> do with a path and a
  content, \<open>write_file\<close>; and the constant \<open>EVENT_TYPE\<close> of \<open>const.py\<close>.
\<close>

text \<open>
  A write ends in one of three ways: the content is in the file; \<open>open\<close> raises and the
  file is as before; or \<open>open\<close> has emptied the file and \<open>json.dump\<close> raises on a text it
  cannot encode, which leaves a file that is not JSON.
\<close>

datatype write_outcome = Written | OpenFails | DumpFails

record env =
  http :: "nat \<Rightarrow> http_outcome"
  b64decode :: "string \<Rightarrow> string option"
  b64encode :: "string \<Rightarrow> string"
  quote :: "string \<Rightarrow> string"
  lower :: "string \<Rightarrow> string"
  write_file :: "string \<Rightarrow> json \<Rightarrow> write_outcome"
  EVENT_TYPE :: string

text \<open>
  The state the module changes: the requests posted so far, the files, the events fired on
  the bus of the host and the records handed to the logger.
\<close>

record world =
  calls :: "request list"
  files :: "string \<Rightarrow> file_state"
  events :: "event list"
  logs :: "log_entry list"

definition log :: "level \<Rightarrow> string \<Rightarrow> log_arg list \<Rightarrow> world \<Rightarrow> world" where
  "log l f as w =
     w\<lparr>logs := logs w @ [\<lparr>log_level = l, log_msg = LJson (JStr f), log_args = as\<rparr>]\<rparr>"

text \<open>\<open>_LOGGER.warning(err)\<close> and \<open>_LOGGER.critical(err)\<close>: the message is the exception.\<close>

definition log_exn :: "level \<Rightarrow> exn \<Rightarrow> world \<Rightarrow> world" where
  "log_exn l e w = w\<lparr>logs := logs w @ [\<lparr>log_level = l, log_msg = LExn e, log_args = []\<rparr>]\<rparr>"

section \<open>Transport\<close>

definition APIURL :: string where
  "APIURL = ''https://api.ecoledirecte.com/v3''"

definition APIVERSION :: string where
  "APIVERSION = ''4.55.0''"

definition get_headers :: "json \<Rightarrow> (string \<times> json) list" where
  "get_headers token =
     (let headers =
        [(''Accept'', JStr ''application/json, text/plain, */*''),
         (''Accept-Encoding'', JStr ''gzip, deflate, br''),
         (''Accept-language'', JStr ''fr,fr-FR;q=0.8,en-US;q=0.5,en;q=0.3''),
         (''Connection'', JStr ''keep-alive''),
         (''Content-Type'', JStr ''application/x-www-form-urlencoded''),
         (''DNT'', JStr ''1''),
         (''Host'', JStr ''api.ecoledirecte.com''),
         (''Origin'', JStr ''https://www.ecoledirecte.com''),
         (''Referer'', JStr ''https://www.ecoledirecte.com/''),
         (''Sec-fetch-dest'', JStr ''empty''),
         (''Sec-fetch-mode'', JStr ''cors''),
         (''Sec-fetch-site'', JStr ''same-site''),
         (''Sec-GPC'', JStr ''1''),
         (''User-agent'', JStr ''Mozilla/5.0 (Windows NT 10.0; Win64; x64; rv:124.0) Gecko/20100101 Firefox/124.0'')]
      in if token \<noteq> JNull then dict_set headers ''X-Token'' token else headers)"

text \<open>
  \<open>get_response\<close>: the request is recorded, the provider answers, and the envelope is
  classified. The exception of a failing post leaves the function as it is.
\<close>

definition get_response ::
  "env \<Rightarrow> json \<Rightarrow> ftext \<Rightarrow> ftext option \<Rightarrow> world \<Rightarrow> (exn + json) \<times> world" where
  "get_response E token u payload w =
     (let payload = (case payload of None \<Rightarrow> [Txt ''data={}''] | Some p \<Rightarrow> p);
          w1 = log DEBUG ''URL: [%s] - Payload: [%s]'' [LText u, LText payload] w;
          w2 = w1\<lparr>calls := calls w1 @
                 [\<lparr>url = u, data = payload, headers = get_headers token, timeout = 120\<rparr>]\<rparr>
      in case http E (length (calls w1)) of
           NetFail \<Rightarrow> (Inl ConnectionError, w2)
         | NotJson content \<Rightarrow>
             (Inl (RequestError ([Txt ''Error with URL:[''] @ u @ [Txt '']: '', Bytes content])), w2)
         | Body resp_json \<Rightarrow>
             (case py_in ''code'' resp_json of
                Inl e \<Rightarrow> (Inl e, w2)
              | Inr has_code \<Rightarrow>
                  if \<not> has_code then
                    (Inl (RequestError ([Txt ''Error with URL:[''] @ u @
                            [Txt '']: json:['', Fmt resp_json, Txt '']''])), w2)
                  else
                    (case getitem resp_json ''code'' of
                       Inl e \<Rightarrow> (Inl e, w2)
                     | Inr code \<Rightarrow>
                         if code = JInt 250 \<and> token = JNull then
                           (Inr resp_json, log DEBUG ''%s'' [LJson resp_json] w2)
                         else if code \<noteq> JInt 200 then
                           (case getitem resp_json ''message'' of
                              Inl e \<Rightarrow> (Inl e, w2)
                            | Inr message \<Rightarrow>
                                (Inl (RequestError ([Txt ''Error with URL:[''] @ u @
                                        [Txt ''] - Code '', Fmt code, Txt '': '', Fmt message])), w2))
                         else (Inr resp_json, log DEBUG ''%s'' [LJson resp_json] w2))))"


section \<open>Domain Mapper\<close>

text \<open>
  An attribute that a constructor may leave unassigned has an optional value, \<open>None\<close> for
  an attribute the object does not have. The attribute \<open>id\<close> of a session, a grade and a
  lesson, and \<open>text\<close> of a lesson, carry the name of their class.
\<close>

record EDEleve =
  classe_id :: "json option"
  classe_name :: "json option"
  eleve_id :: json
  eleve_lastname :: json
  eleve_firstname :: json
  modules :: json
  establishment :: json

text \<open>The loop that keeps the \<open>code\<close> of every module whose \<open>enable\<close> is true.\<close>

fun enabled_modules :: "json list \<Rightarrow> exn + json list" where
  "enabled_modules [] = Inr []"
| "enabled_modules (module # rest) =
     ebind (getitem module ''enable'') (\<lambda>enable.
       if truthy enable then
         ebind (getitem module ''code'') (\<lambda>code.
         ebind (enabled_modules rest) (\<lambda>codes. Inr (code # codes)))
       else enabled_modules rest)"

definition EDEleve_init ::
  "json \<Rightarrow> json \<Rightarrow> json \<Rightarrow> json \<Rightarrow> json \<Rightarrow> json \<Rightarrow> json \<Rightarrow> json \<Rightarrow> exn + EDEleve" where
  "EDEleve_init d establishment_arg eleve_id_arg first_name last_name classe_id_arg
       classe_name_arg modules_arg =
     (if d = JNull then
        Inr \<lparr>classe_id = Some classe_id_arg, classe_name = Some classe_name_arg,
             eleve_id = eleve_id_arg, eleve_lastname = last_name,
             eleve_firstname = first_name, modules = modules_arg,
             establishment = establishment_arg\<rparr>
      else
        ebind (py_in ''classe'' d) (\<lambda>has_classe.
        ebind (if has_classe then
                 ebind (getitem d ''classe'') (\<lambda>c1.
                 ebind (getitem c1 ''id'') (\<lambda>cid.
                 ebind (getitem d ''classe'') (\<lambda>c2.
                 ebind (getitem c2 ''libelle'') (\<lambda>cname. Inr (Some cid, Some cname)))))
               else Inr (None, None)) (\<lambda>cl.
        ebind (getitem d ''id'') (\<lambda>eid.
        ebind (getitem d ''nom'') (\<lambda>nom.
        ebind (getitem d ''prenom'') (\<lambda>prenom.
        ebind (getitem d ''modules'') (\<lambda>ms.
        ebind (py_iter ms) (\<lambda>items.
        ebind (enabled_modules items) (\<lambda>codes.
          Inr \<lparr>classe_id = fst cl, classe_name = snd cl, eleve_id = eid,
               eleve_lastname = nom, eleve_firstname = prenom, modules = JArr codes,
               establishment = establishment_arg\<rparr>)))))))))"

text \<open>
  \<open>s.lower()\<close>: on a text of ASCII characters the letters A to Z move to a to z and
  nothing else changes; on any other text the result comes from the tables of Unicode
  (\<open>lower\<close> of the environment). A value that is not a string has no such method.
\<close>

definition is_ascii :: "char \<Rightarrow> bool" where
  "is_ascii c = ((of_char c :: nat) < 128)"

definition ascii_lower :: "char \<Rightarrow> char" where
  "ascii_lower c =
     (let n = (of_char c :: nat) in if 65 \<le> n \<and> n \<le> 90 then char_of (n + 32) else c)"

definition str_lower :: "env \<Rightarrow> json \<Rightarrow> exn + string" where
  "str_lower E v =
     (case v of
        JStr s \<Rightarrow> Inr (if list_all is_ascii s then map ascii_lower s else lower E s)
      | _ \<Rightarrow> Inl AttributeError)"

text \<open>
  \<open>re.sub("[^A-Za-z]", "_", s)\<close>: every character of the text that is not one of the
  letters A to Z and a to z is replaced by one underscore.
\<close>

definition ascii_letter :: "char \<Rightarrow> bool" where
  "ascii_letter c =
     (let n = (of_char c :: nat) in (65 \<le> n \<and> n \<le> 90) \<or> (97 \<le> n \<and> n \<le> 122))"

definition sub_char :: "string \<Rightarrow> string" where
  "sub_char g = (case g of [c] \<Rightarrow> if ascii_letter c then [c] else ''_'' | _ \<Rightarrow> ''_'')"

definition sub_non_letters :: "string \<Rightarrow> string" where
  "sub_non_letters s = concat (map sub_char (code_points s))"

definition get_fullname_lower :: "env \<Rightarrow> EDEleve \<Rightarrow> exn + string" where
  "get_fullname_lower E self =
     ebind (str_lower E (eleve_firstname self)) (\<lambda>first.
     ebind (str_lower E (eleve_lastname self)) (\<lambda>last.
       Inr (sub_non_letters first @ ''_'' @ sub_non_letters last)))"

definition get_fullname :: "EDEleve \<Rightarrow> ftext" where
  "get_fullname self = [Fmt (eleve_firstname self), Txt '' '', Fmt (eleve_lastname self)]"









text \<open>
  The session. The expression \<open>data["data"]["accounts"][0]\<close> is evaluated anew at each
  of its occurrences.
\<close>

record EDSession =
  token :: json
  session_id :: json
  identifiant :: json
  id_login :: json
  account_type :: json
  modules :: json
  eleves :: "EDEleve list"

definition account0 :: "json \<Rightarrow> exn + json" where
  "account0 d = ebind (getitem d ''data'') (\<lambda>dd. ebind (getitem dd ''accounts'') getitem0)"

definition account_field :: "json \<Rightarrow> string \<Rightarrow> exn + json" where
  "account_field d k = ebind (account0 d) (\<lambda>a. getitem a k)"

fun linked_eleves :: "json \<Rightarrow> json list \<Rightarrow> exn + EDEleve list" where
  "linked_eleves d [] = Inr []"
| "linked_eleves d (eleve # rest) =
     ebind (account_field d ''nomEtablissement'') (\<lambda>etab.
     ebind (EDEleve_init eleve etab JNull JNull JNull JNull JNull JNull) (\<lambda>e.
     ebind (linked_eleves d rest) (\<lambda>es. Inr (e # es))))"

definition EDSession_init :: "json \<Rightarrow> exn + EDSession" where
  "EDSession_init d =
     ebind (getitem d ''token'') (\<lambda>tok.
     ebind (account_field d ''id'') (\<lambda>sid.
     ebind (account_field d ''identifiant'') (\<lambda>ident.
     ebind (account_field d ''idLogin'') (\<lambda>idl.
     ebind (account_field d ''typeCompte'') (\<lambda>atype.
     ebind (account_field d ''modules'') (\<lambda>ms.
     ebind (py_iter ms) (\<lambda>items.
     ebind (enabled_modules items) (\<lambda>codes.
     ebind (if atype = JStr ''E'' then
              ebind (account_field d ''nomEtablissement'') (\<lambda>etab.
              ebind (account_field d ''prenom'') (\<lambda>prenom.
              ebind (account_field d ''nom'') (\<lambda>nom.
              ebind (account_field d ''profile'') (\<lambda>p1.
              ebind (getitem p1 ''classe'') (\<lambda>c1.
              ebind (getitem c1 ''id'') (\<lambda>cid.
              ebind (account_field d ''profile'') (\<lambda>p2.
              ebind (getitem p2 ''classe'') (\<lambda>c2.
              ebind (getitem c2 ''libelle'') (\<lambda>cname.
              ebind (EDEleve_init JNull etab sid prenom nom cid cname (JArr codes)) (\<lambda>e.
                Inr [e]))))))))))
            else
              ebind (account_field d ''profile'') (\<lambda>p1.
              ebind (py_in ''eleves'' p1) (\<lambda>has_eleves.
                if has_eleves then
                  ebind (account_field d ''profile'') (\<lambda>p2.
                  ebind (getitem p2 ''eleves'') (\<lambda>els.
                  ebind (py_iter els) (\<lambda>items. linked_eleves d items)))
                else Inr []))) (\<lambda>es.
       Inr \<lparr>token = tok, session_id = sid, identifiant = ident, id_login = idl,
            account_type = atype, modules = JArr codes, eleves = es\<rparr>)))))))))"

section \<open>Data-Fetch Operations\<close>

text \<open>
  The tail shared by the four operations and by the two operations of the challenge: the
  field \<open>data\<close> of the response when it has one, a warning and \<open>None\<close> otherwise.
\<close>

definition data_or_warn :: "string \<Rightarrow> (exn + json) \<times> world \<Rightarrow> (exn + json) \<times> world" where
  "data_or_warn fmt r =
     (case r of
        (Inl e, w) \<Rightarrow> (Inl e, w)
      | (Inr json_resp, w) \<Rightarrow>
          (case py_in ''data'' json_resp of
             Inl e \<Rightarrow> (Inl e, w)
           | Inr has_data \<Rightarrow>
               if has_data then (getitem json_resp ''data'', w)
               else (Inr JNull, log WARNING fmt [LJson json_resp] w)))"

definition get_homeworks_by_date ::
  "env \<Rightarrow> json \<Rightarrow> EDEleve \<Rightarrow> json \<Rightarrow> world \<Rightarrow> (exn + json) \<times> world" where
  "get_homeworks_by_date E tok eleve day w =
     data_or_warn ''get_homeworks_by_date: [%s]''
       (get_response E tok
          [Txt (APIURL @ ''/Eleves/''), Fmt (eleve_id eleve), Txt ''/cahierdetexte/'', Fmt day,
           Txt (''.awp?verbe=get&v='' @ APIVERSION)]
          None w)"

definition get_homeworks :: "env \<Rightarrow> json \<Rightarrow> EDEleve \<Rightarrow> world \<Rightarrow> (exn + json) \<times> world" where
  "get_homeworks E tok eleve w =
     data_or_warn ''get_homeworks: [%s]''
       (get_response E tok
          [Txt (APIURL @ ''/Eleves/''), Fmt (eleve_id eleve),
           Txt (''/cahierdetexte.awp?verbe=get&v='' @ APIVERSION)]
          None w)"

definition get_grades ::
  "env \<Rightarrow> json \<Rightarrow> EDEleve \<Rightarrow> json \<Rightarrow> world \<Rightarrow> (exn + json) \<times> world" where
  "get_grades E tok eleve annee_scolaire w =
     data_or_warn ''get_grades: [%s]''
       (get_response E tok
          [Txt (APIURL @ ''/eleves/''), Fmt (eleve_id eleve),
           Txt (''/notes.awp?verbe=get&v='' @ APIVERSION)]
          (Some [Txt (''data={'' @ [CHR 0x27] @ ''anneeScolaire'' @ [CHR 0x27] @ '': '' @ [CHR 0x27]),
                 Fmt annee_scolaire, Txt ([CHR 0x27] @ ''}'')]) w)"

definition get_lessons ::
  "env \<Rightarrow> json \<Rightarrow> EDEleve \<Rightarrow> json \<Rightarrow> json \<Rightarrow> world \<Rightarrow> (exn + json) \<times> world" where
  "get_lessons E tok eleve date_debut date_fin w =
     data_or_warn ''get_lessons: [%s]''
       (get_response E tok
          [Txt (APIURL @ ''/E/''), Fmt (eleve_id eleve),
           Txt (''/emploidutemps.awp?verbe=get&v='' @ APIVERSION)]
          (Some [Txt (''data={'' @ [CHR 0x27] @ ''dateDebut'' @ [CHR 0x27] @ '': '' @ [CHR 0x27]),
                 Fmt date_debut,
                 Txt ([CHR 0x27] @ '','' @ [CHR 0x27] @ ''dateFin'' @ [CHR 0x27] @ '': '' @ [CHR 0x27]),
                 Fmt date_fin,
                 Txt ([CHR 0x27] @ '','' @ [CHR 0x27] @ ''avecTrous'' @ [CHR 0x27] @ '': false}'')]) w)"

section \<open>Authentication Handshake\<close>

definition get_qcm_connexion :: "env \<Rightarrow> json \<Rightarrow> world \<Rightarrow> (exn + json) \<times> world" where
  "get_qcm_connexion E tok w =
     data_or_warn ''get_qcm_connexion: [%s]''
       (get_response E tok
          [Txt (APIURL @ ''/connexion/doubleauth.awp?verbe=get&v='' @ APIVERSION)] None w)"

definition post_qcm_connexion :: "env \<Rightarrow> json \<Rightarrow> string \<Rightarrow> world \<Rightarrow> (exn + json) \<times> world" where
  \<open>post_qcm_connexion E tok proposition w =
     data_or_warn ''post_qcm_connexion: [%s]''
       (get_response E tok
          [Txt (APIURL @ ''/connexion/doubleauth.awp?verbe=post&v='' @ APIVERSION)]
          (Some [Txt ''data={"choix": "'', Fmt (JStr proposition), Txt ''"}'']) w)\<close>

definition login_url :: ftext where
  "login_url = [Txt (APIURL @ ''/login.awp?v='' @ APIVERSION)]"

definition qcm_path :: "string \<Rightarrow> string" where
  "qcm_path config_path = config_path @ ''/custom_components/ecole_directe/qcm.json''"

text \<open>\<open>data[k]\<close> on the credentials, a dict of strings.\<close>

definition cred :: "(string \<rightharpoonup> string) \<Rightarrow> string \<Rightarrow> exn + string" where
  "cred d k = (case d k of None \<Rightarrow> Inl (KeyError k) | Some v \<Rightarrow> Inr v)"

definition first_payload :: "env \<Rightarrow> (string \<rightharpoonup> string) \<Rightarrow> exn + string" where
  \<open>first_payload E d =
     ebind (cred d ''username'') (\<lambda>u.
     ebind (cred d ''password'') (\<lambda>p.
       Inr (''data={"identifiant":"'' @ quote E u @ ''", "motdepasse":"'' @ quote E p
            @ ''", "isRelogin": false}'')))\<close>

definition second_payload :: "env \<Rightarrow> (string \<rightharpoonup> string) \<Rightarrow> json \<Rightarrow> json \<Rightarrow> exn + string" where
  \<open>second_payload E d cn cv =
     ebind (cred d ''username'') (\<lambda>u.
     ebind (cred d ''password'') (\<lambda>p.
     ebind (str_add (''data={"identifiant":"'' @ quote E u @ ''", "motdepasse":"'' @ quote E p
                       @ ''", "isRelogin": false, "fa": [{"cn": "'') cn) (\<lambda>s1.
     ebind (str_add (s1 @ ''", "cv": "'') cv) (\<lambda>s2.
       Inr (s2 @ ''"}]}'')))))\<close>

text \<open>\<open>base64.b64decode(v).decode("utf-8")\<close> on a decoded value.\<close>

definition b64decode_utf8 :: "env \<Rightarrow> json \<Rightarrow> exn + string" where
  "b64decode_utf8 E v =
     (case v of
        JStr s \<Rightarrow> (case b64decode E s of None \<Rightarrow> Inl ValueError | Some t \<Rightarrow> Inr t)
      | _ \<Rightarrow> Inl TypeError)"

text \<open>\<open>base64.b64encode(bytes(v, "utf-8")).decode("ascii")\<close>.\<close>

definition b64encode_utf8 :: "env \<Rightarrow> json \<Rightarrow> exn + string" where
  "b64encode_utf8 E v = (case v of JStr s \<Rightarrow> Inr (b64encode E s) | _ \<Rightarrow> Inl TypeError)"

fun decode_all :: "env \<Rightarrow> json list \<Rightarrow> exn + string list" where
  "decode_all E [] = Inr []"
| "decode_all E (proposition # rest) =
     ebind (b64decode_utf8 E proposition) (\<lambda>r.
     ebind (decode_all E rest) (\<lambda>rs. Inr (r # rs)))"

text \<open>
  One pass through the body of the \<open>while\<close> loop. It ends with \<open>continue\<close> or at the
  bottom of the body (\<open>Continue\<close>, with the new values of \<open>try_login\<close> and \<open>qcm_json\<close>),
  with \<open>break\<close> (\<open>Break\<close>, with \<open>cn\<close> and \<open>cv\<close>), or with an exception.
\<close>

datatype step = Continue int json | Break json json

definition qcm_rate :: string where
  "qcm_rate = ''qcm rat'' @ [CHR 0xE9] @ '' pour la question [%s], v'' @ [CHR 0xE9]
              @ ''rifier le fichier qcm.json. [%s]''"

definition qcm_iteration ::
  "env \<Rightarrow> (string \<rightharpoonup> string) \<Rightarrow> string \<Rightarrow> json \<Rightarrow> int \<Rightarrow> json \<Rightarrow> world
     \<Rightarrow> (exn + step) \<times> world" where
  "qcm_iteration E d config_path login try_login qcm_json w =
     (case getitem login ''token'' of
        Inl e \<Rightarrow> (Inl e, w)
      | Inr tok \<Rightarrow>
     (case get_qcm_connexion E tok w of
        (Inl e, w1) \<Rightarrow> (Inl e, w1)
      | (Inr qcm, w1) \<Rightarrow>
     (case ebind (getitem qcm ''question'') (b64decode_utf8 E) of
        Inl e \<Rightarrow> (Inl e, w1)
      | Inr question \<Rightarrow>
     (case (if qcm_json \<noteq> JNull then py_in question qcm_json else Inr False) of
        Inl e \<Rightarrow> (Inl e, w1)
      | Inr known \<Rightarrow>
          if known then
            (case ebind (getitem qcm_json question) py_len of
               Inl e \<Rightarrow> (Inl e, w1)
             | Inr n \<Rightarrow>
                 if n > 1 then (Inr (Continue (try_login - 1) qcm_json), w1)
                 else
                   (case ebind (getitem qcm_json question) (\<lambda>answers.
                         ebind (getitem0 answers) (b64encode_utf8 E)) of
                      Inl e \<Rightarrow> (Inl e, w1)
                    | Inr reponse \<Rightarrow>
                   (case getitem login ''token'' of
                      Inl e \<Rightarrow> (Inl e, w1)
                    | Inr tok2 \<Rightarrow>
                   (case post_qcm_connexion E tok2 reponse w1 of
                      (Inl e, w2) \<Rightarrow> (Inl e, w2)
                    | (Inr cn_et_cv, w2) \<Rightarrow>
                        if \<not> truthy cn_et_cv then
                          (Inr (Continue try_login qcm_json),
                           log WARNING qcm_rate [LJson (JStr question), LJson cn_et_cv] w2)
                        else
                          (case ebind (getitem cn_et_cv ''cn'') (\<lambda>cn.
                                ebind (getitem cn_et_cv ''cv'') (\<lambda>cv. Inr (cn, cv))) of
                             Inl e \<Rightarrow> (Inl e, w2)
                           | Inr (cn, cv) \<Rightarrow> (Inr (Break cn cv), w2))))))
          else
            (case ebind (getitem qcm ''propositions'') (\<lambda>propositions.
                  ebind (py_iter propositions) (decode_all E)) of
               Inl e \<Rightarrow> (Inl e, w1)
             | Inr rep \<Rightarrow>
            (case setitem qcm_json question (JArr (map JStr rep)) of
               Inl e \<Rightarrow> (Inl e, w1)
             | Inr qcm_json' \<Rightarrow>
            (case write_file E (qcm_path config_path) qcm_json' of
               OpenFails \<Rightarrow> (Inl PermissionError, w1)
             | DumpFails \<Rightarrow>
                 (Inl UnicodeEncodeError,
                  w1\<lparr>files := (files w1)(qcm_path config_path := Malformed)\<rparr>)
             | Written \<Rightarrow>
                 let w2 = w1\<lparr>files := (files w1)(qcm_path config_path := Content qcm_json')\<rparr>
                 in (case cred d ''username'' of
                       Inl e \<Rightarrow> (Inl e, w2)
                     | Inr username \<Rightarrow>
                         (Inr (Continue (try_login - 1) qcm_json'),
                          w2\<lparr>events := events w2 @
                                [\<lparr>event_type = EVENT_TYPE E,
                                  event_data = [(''device_id'', JStr (''ED - '' @ username)),
                                                (''type'', JStr ''new_qcm''),
                                                (''question'', JStr question)]\<rparr>]\<rparr>)))))))))"

text \<open>
  The \<open>while try_login > 0\<close> loop. Nothing bounds the number of its passes, so it is a
  partial function: \<open>None\<close> is the loop that never ends. Its result is the value of
  \<open>try_login\<close> at the exit and, after a \<open>break\<close>, the values of \<open>cn\<close> and \<open>cv\<close>.
\<close>

partial_function (option) qcm_loop ::
  "env \<Rightarrow> (string \<rightharpoonup> string) \<Rightarrow> string \<Rightarrow> json \<Rightarrow> int \<Rightarrow> json \<Rightarrow> world
     \<Rightarrow> ((exn + int \<times> (json \<times> json) option) \<times> world) option" where
  "qcm_loop E d config_path login try_login qcm_json w =
     (if try_login > 0 then
        (case qcm_iteration E d config_path login try_login qcm_json w of
           (Inl e, w') \<Rightarrow> Some (Inl e, w')
         | (Inr (Continue try_login' qcm_json'), w') \<Rightarrow>
             qcm_loop E d config_path login try_login' qcm_json' w'
         | (Inr (Break cn cv), w') \<Rightarrow> Some (Inr (try_login, Some (cn, cv)), w'))
      else Some (Inr (try_login, None), w))"

definition qcm_message :: string where
  "qcm_message = ''V'' @ [CHR 0xE9] @ ''rifiez le fichier qcm.json, et rechargez l'' @ [CHR 0x27]
                 @ ''int'' @ [CHR 0xE9] @ ''gration Ecole Directe.''"

text \<open>The end of the \<open>try\<close> block: the log of the connection and the session.\<close>

definition connection_ok :: "json \<Rightarrow> world \<Rightarrow> (exn + EDSession) \<times> world" where
  "connection_ok login w =
     (case account_field login ''identifiant'' of
        Inl e \<Rightarrow> (Inl e, w)
      | Inr ident \<Rightarrow>
          (EDSession_init login, log INFO ''Connection OK - identifiant: [{%s}]'' [LJson ident] w))"

text \<open>The file as \<open>open\<close> and \<open>json.load\<close> read it.\<close>

definition load_qcm :: "world \<Rightarrow> string \<Rightarrow> exn + json" where
  "load_qcm w path =
     (case files w path of
        Missing \<Rightarrow> Inl FileNotFoundError
      | Unreadable \<Rightarrow> Inl PermissionError
      | Malformed \<Rightarrow> Inl JSONDecodeError
      | Content j \<Rightarrow> Inr j)"

text \<open>
  The block under \<open>if login["code"] == 250\<close>: the cache is loaded, the loop runs, and
  the second login is sent. Its result is the new value of \<open>login\<close>.
\<close>

definition resolve_challenge ::
  "env \<Rightarrow> (string \<rightharpoonup> string) \<Rightarrow> string \<Rightarrow> json \<Rightarrow> world \<Rightarrow> ((exn + json) \<times> world) option" where
  "resolve_challenge E d config_path login w1 =
     (case load_qcm w1 (qcm_path config_path) of
        Inl e \<Rightarrow> Some (Inl e, w1)
      | Inr qcm_json \<Rightarrow>
     (case qcm_loop E d config_path login 5 qcm_json w1 of
        None \<Rightarrow> None
      | Some (Inl e, w2) \<Rightarrow> Some (Inl e, w2)
      | Some (Inr (try_login, cn_cv), w2) \<Rightarrow>
          if try_login = 0 then Some (Inl (QCMError qcm_message), w2)
          else
            (case cn_cv of
               None \<Rightarrow> Some (Inl UnboundLocalError, w2)
             | Some (cn, cv) \<Rightarrow>
                 let w3 = log DEBUG ''cn: [%s] - cv: [%s]'' [LJson cn, LJson cv] w2
                 in (case second_payload E d cn cv of
                       Inl e \<Rightarrow> Some (Inl e, w3)
                     | Inr payload \<Rightarrow>
                         Some (get_response E JNull login_url (Some [Txt payload]) w3)))))"

text \<open>The body of the \<open>try\<close> block of \<open>get_ecoledirecte_session\<close>.\<close>

definition session_try ::
  "env \<Rightarrow> (string \<rightharpoonup> string) \<Rightarrow> string \<Rightarrow> world \<Rightarrow> ((exn + EDSession) \<times> world) option" where
  "session_try E d config_path w =
     (case first_payload E d of
        Inl e \<Rightarrow> Some (Inl e, w)
      | Inr payload \<Rightarrow>
     (case get_response E JNull login_url (Some [Txt payload]) w of
        (Inl e, w1) \<Rightarrow> Some (Inl e, w1)
      | (Inr login, w1) \<Rightarrow>
     (case getitem login ''code'' of
        Inl e \<Rightarrow> Some (Inl e, w1)
      | Inr code \<Rightarrow>
          if code = JInt 250 then
            (case resolve_challenge E d config_path login w1 of
               None \<Rightarrow> None
             | Some (Inl e, w2) \<Rightarrow> Some (Inl e, w2)
             | Some (Inr login2, w2) \<Rightarrow> Some (connection_ok login2 w2))
          else Some (connection_ok login w1))))"

text \<open>
  \<open>get_ecoledirecte_session\<close>: the handlers around the body. \<open>QCMError\<close> is logged and
  raised again; any other exception is logged and the result is \<open>None\<close>.
\<close>

definition get_ecoledirecte_session ::
  "env \<Rightarrow> (string \<rightharpoonup> string) \<Rightarrow> string \<Rightarrow> world
     \<Rightarrow> ((exn + EDSession option) \<times> world) option" where
  "get_ecoledirecte_session E d config_path w =
     (case session_try E d config_path w of
        None \<Rightarrow> None
      | Some (Inr session, w') \<Rightarrow> Some (Inr (Some session), w')
      | Some (Inl err, w') \<Rightarrow>
          if is_QCMError err then Some (Inl err, log_exn WARNING err w')
          else Some (Inr None, log_exn CRITICAL err w'))"

definition check_ecoledirecte_session ::
  "env \<Rightarrow> (string \<rightharpoonup> string) \<Rightarrow> string \<Rightarrow> world \<Rightarrow> ((exn + bool) \<times> world) option" where
  "check_ecoledirecte_session E d config_path w =
     (case get_ecoledirecte_session E d config_path w of
        None \<Rightarrow> None
      | Some (Inl err, w') \<Rightarrow>
          if is_QCMError err then Some (Inr True, w') else Some (Inl err, w')
      | Some (Inr session, w') \<Rightarrow> Some (Inr (session \<noteq> None), w'))"


section \<open>Concrete inputs\<close>

text \<open>
  A provider that answers from a script and fails once the script is over, and the
  codecs on the strings of the examples: \<open>b64_pairs\<close> lists texts with their Base64
  encodings (the text \<open>A\<close> is no Base64 encoding), and \<open>quote\<close> leaves letters and
  digits as they are. In \<open>test_env\<close> every
  write succeeds; in \<open>read_only_env\<close> the file cannot be opened for writing.
\<close>

definition scripted :: "http_outcome list \<Rightarrow> nat \<Rightarrow> http_outcome" where
  "scripted rs n = (if n < length rs then rs ! n else NetFail)"

definition b64_pairs :: "(string \<times> string) list" where
  "b64_pairs = [(''UQ=='', ''Q''), (''NDE='', ''41''), (''NDI='', ''42''), (''NDM='', ''43'')]"

definition b64_table_decode :: "string \<Rightarrow> string option" where
  "b64_table_decode s = map_of b64_pairs s"

definition b64_table_encode :: "string \<Rightarrow> string" where
  "b64_table_encode s =
     (case map_of (map (\<lambda>p. (snd p, fst p)) b64_pairs) s of None \<Rightarrow> [] | Some e \<Rightarrow> e)"

definition quote_plain :: "string \<Rightarrow> string" where
  "quote_plain s = s"

text \<open>
  Three names with a character outside ASCII and their lower case: the first begins with
  U+0130 (the bytes C4 B0), which becomes \<open>i\<close> followed by U+0307 (the bytes CC 87); the
  second begins with U+212A, the Kelvin sign (the bytes E2 84 AA), which becomes \<open>k\<close>;
  the third begins with U+00C9 (the bytes C3 89), which becomes U+00E9 (the bytes C3 A9).
\<close>

definition name_inan :: string where
  "name_inan = [CHR 0xC4, CHR 0xB0] @ ''nan''"

definition name_kelvin_arl :: string where
  "name_kelvin_arl = [CHR 0xE2, CHR 0x84, CHR 0xAA] @ ''arl''"

definition name_eric :: string where
  "name_eric = [CHR 0xC3, CHR 0x89] @ ''ric''"

definition lower_table :: "string \<Rightarrow> string" where
  "lower_table s =
     (if s = name_inan then ''i'' @ [CHR 0xCC, CHR 0x87] @ ''nan''
      else if s = name_kelvin_arl then ''karl''
      else if s = name_eric then [CHR 0xC3, CHR 0xA9] @ ''ric''
      else s)"

definition always_written :: "string \<Rightarrow> json \<Rightarrow> write_outcome" where
  "always_written path content = Written"


definition test_env :: "(nat \<Rightarrow> http_outcome) \<Rightarrow> env" where
  "test_env provider =
     \<lparr>http = provider, b64decode = b64_table_decode, b64encode = b64_table_encode,
      quote = quote_plain, lower = lower_table, write_file = always_written,
      EVENT_TYPE = ''ecole_directe_event''\<rparr>"


definition no_file :: "string \<Rightarrow> file_state" where
  "no_file path = Missing"

definition world0 :: world where
  "world0 = \<lparr>calls = [], files = no_file, events = [], logs = []\<rparr>"

definition world_with_qcm :: "json \<Rightarrow> world" where
  "world_with_qcm j =
     \<lparr>calls = [], files = no_file(qcm_path ''/config'' := Content j), events = [], logs = []\<rparr>"

definition creds :: "string \<rightharpoonup> string" where
  "creds = [''username'' \<mapsto> ''alice'', ''password'' \<mapsto> ''secret'']"

definition login_250 :: json where
  "login_250 = JObj [(''code'', JInt 250), (''token'', JStr ''tok'')]"

definition challenge_Q :: json where
  "challenge_Q =
     JObj [(''code'', JInt 200),
           (''data'', JObj [(''question'', JStr ''UQ==''),
                            (''propositions'', JArr [JStr ''NDE='', JStr ''NDI='', JStr ''NDM=''])])]"


definition answer_rejected :: json where
  "answer_rejected = JObj [(''code'', JInt 200), (''data'', JObj [])]"

definition answer_accepted :: json where
  "answer_accepted =
     JObj [(''code'', JInt 200), (''data'', JObj [(''cn'', JStr ''Y24=''), (''cv'', JStr ''Y3Y='')])]"

text \<open>
  A provider that asks for the challenge at the login, always poses the question \<open>Q\<close>
  and turns every answer down.
\<close>

definition rejecting_provider :: "nat \<Rightarrow> http_outcome" where
  "rejecting_provider n =
     (if n = 0 then Body login_250 else if odd n then Body challenge_Q else Body answer_rejected)"

definition cache_Q_42 :: json where
  "cache_Q_42 = JObj [(''Q'', JArr [JStr ''42''])]"

definition cache_Q_ambiguous :: json where
  "cache_Q_ambiguous = JObj [(''Q'', JArr [JStr ''41'', JStr ''42'', JStr ''43''])]"

definition jean_paul :: EDEleve where
  "jean_paul =
     \<lparr>classe_id = None, classe_name = None, eleve_id = JInt 1,
      eleve_lastname = JStr (''O'' @ [CHR 0x27] @ ''Brien''),
      eleve_firstname = JStr ''Jean-Paul'', EDEleve.modules = JArr [], establishment = JNull\<rparr>"

definition inan_kelvin :: EDEleve where
  "inan_kelvin =
     \<lparr>classe_id = None, classe_name = None, eleve_id = JInt 2,
      eleve_lastname = JStr name_kelvin_arl, eleve_firstname = JStr name_inan,
      EDEleve.modules = JArr [], establishment = JNull\<rparr>"

definition eric_obrien :: EDEleve where
  "eric_obrien =
     \<lparr>classe_id = None, classe_name = None, eleve_id = JInt 3,
      eleve_lastname = JStr (''O'' @ [CHR 0x27] @ ''Brien''), eleve_firstname = JStr name_eric,
      EDEleve.modules = JArr [], establishment = JNull\<rparr>"





definition alice_payload :: string where
  \<open>alice_payload = ''data={"identifiant":"alice", "motdepasse":"secret", "isRelogin": false}''\<close>

text \<open>
  A provider that asks for the challenge at the login and then always poses the question
  \<open>Q\<close>; a login that succeeds, and the session built from it.
\<close>

definition asking_provider :: "nat \<Rightarrow> http_outcome" where
  "asking_provider n = (if n = 0 then Body login_250 else Body challenge_Q)"

definition login_200 :: json where
  "login_200 =
     JObj [(''code'', JInt 200), (''token'', JStr ''tok2''),
           (''data'', JObj [(''accounts'', JArr [JObj
              [(''id'', JInt 7), (''identifiant'', JStr ''alice''), (''idLogin'', JInt 99),
               (''typeCompte'', JStr ''E''), (''nomEtablissement'', JStr ''College''),
               (''prenom'', JStr ''Alice''), (''nom'', JStr ''Martin''),
               (''modules'', JArr [JObj [(''code'', JStr ''NOTES''), (''enable'', JBool True)]]),
               (''profile'', JObj [(''classe'', JObj [(''id'', JInt 3), (''libelle'', JStr ''6A'')])])]])])]"

definition alice_session :: EDSession where
  "alice_session =
     \<lparr>token = JStr ''tok2'', session_id = JInt 7, identifiant = JStr ''alice'', id_login = JInt 99,
      account_type = JStr ''E'', modules = JArr [JStr ''NOTES''],
      eleves = [\<lparr>classe_id = Some (JInt 3), classe_name = Some (JStr ''6A''), eleve_id = JInt 7,
                 eleve_lastname = JStr ''Martin'', eleve_firstname = JStr ''Alice'',
                 EDEleve.modules = JArr [JStr ''NOTES''], establishment = JStr ''College''\<rparr>]\<rparr>"


text \<open>
  A provider that turns the answer down \<open>k\<close> times, accepts it then, and lets the second
  login succeed.
\<close>

definition patient_provider :: "nat \<Rightarrow> nat \<Rightarrow> http_outcome" where
  "patient_provider k n =
     (if n = 0 then Body login_250
      else if n = 2 * k + 2 then Body answer_accepted
      else if n = 2 * k + 3 then Body login_200
      else if odd n then Body challenge_Q
      else Body answer_rejected)"

section \<open>Notions of the specification\<close>

text \<open>The value under a key of a JSON object, or a default when the key is absent.\<close>

definition lookup_or :: "(string \<times> json) list \<Rightarrow> string \<Rightarrow> json \<Rightarrow> json" where
  "lookup_or kv k dflt = (case map_of kv k of None \<Rightarrow> dflt | Some v \<Rightarrow> v)"

text \<open>
  The identifier token in the words of the specification, character by character of the
  name: a capital letter of A to Z becomes its small letter, a small letter of a to z
  stays, and every other character becomes one underscore.
\<close>

definition capital_letters :: string where
  "capital_letters = ''ABCDEFGHIJKLMNOPQRSTUVWXYZ''"

definition small_letters :: string where
  "small_letters = ''abcdefghijklmnopqrstuvwxyz''"

definition spec_char :: "string \<Rightarrow> string" where
  "spec_char g =
     (case g of
        [c] \<Rightarrow>
          (case map_of (zip capital_letters small_letters) c of
             Some l \<Rightarrow> [l]
           | None \<Rightarrow> if c \<in> set small_letters then [c] else ''_'')
      | _ \<Rightarrow> ''_'')"

definition spec_token :: "string \<Rightarrow> string" where
  "spec_token s = concat (map spec_char (code_points s))"

text \<open>
  A lower case that goes character by character: a character of ASCII has become its
  small letter, or is unchanged when it is no capital letter, and a character outside
  ASCII has become one character outside ASCII.
\<close>

definition spec_lower_char :: "char \<Rightarrow> char" where
  "spec_lower_char c =
     (case map_of (zip capital_letters small_letters) c of Some l \<Rightarrow> l | None \<Rightarrow> c)"

definition outside_ascii :: "string \<Rightarrow> bool" where
  "outside_ascii g = (case g of [c] \<Rightarrow> \<not> is_ascii c | _ \<Rightarrow> True)"

definition lowers_to :: "string \<Rightarrow> string \<Rightarrow> bool" where
  "lowers_to a b =
     (case a of
        [c] \<Rightarrow> if is_ascii c then b = [spec_lower_char c] else outside_ascii b
      | _ \<Rightarrow> outside_ascii b)"

definition lowers_charwise :: "string \<Rightarrow> string \<Rightarrow> bool" where
  "lowers_charwise s t = list_all2 lowers_to (code_points s) (code_points t)"

text \<open>
  A request of the handshake has failed when the network gave no answer, when the answer
  was no JSON, or when it was no JSON object whose \<open>code\<close> is 200 or 250.
\<close>

definition failed_request :: "http_outcome \<Rightarrow> bool" where
  "failed_request a =
     (case a of
        NetFail \<Rightarrow> True
      | NotJson c \<Rightarrow> True
      | Body j \<Rightarrow> getitem j ''code'' \<noteq> Inr (JInt 200) \<and> getitem j ''code'' \<noteq> Inr (JInt 250))"

text \<open>
  Invariants of the handshake. \<open>never_qcm\<close>: a result that is not the exception
  \<open>QCMError\<close>. \<open>answered_from\<close>: no request recorded from index \<open>k\<close> on has failed.
  \<open>passes_from\<close>: an operation that raised something other than \<open>QCMError\<close>, or
  returned with all its requests answered. \<open>outcome_from\<close>: the same for the body of
  the handshake, whose \<open>QCMError\<close> carries the message of the exhausted retries and is
  raised only after requests that were all answered.
\<close>

definition never_qcm :: "exn + 'a \<Rightarrow> bool" where
  "never_qcm r = (case r of Inl e \<Rightarrow> \<not> is_QCMError e | Inr x \<Rightarrow> True)"

definition answered_from :: "env \<Rightarrow> nat \<Rightarrow> world \<Rightarrow> bool" where
  "answered_from E k w = list_all (\<lambda>n. \<not> failed_request (http E n)) [k..<length (calls w)]"

definition passes_from :: "env \<Rightarrow> nat \<Rightarrow> (exn + 'a) \<times> world \<Rightarrow> bool" where
  "passes_from E k r =
     (case fst r of Inl e \<Rightarrow> \<not> is_QCMError e | Inr x \<Rightarrow> answered_from E k (snd r))"

definition outcome_from :: "env \<Rightarrow> nat \<Rightarrow> (exn + 'a) \<times> world \<Rightarrow> bool" where
  "outcome_from E k r =
     (case fst r of
        Inl e \<Rightarrow> is_QCMError e \<longrightarrow> e = QCMError qcm_message \<and> answered_from E k (snd r)
      | Inr x \<Rightarrow> answered_from E k (snd r))"

text \<open>The warnings in the log, and the warning of an operation that found no \<open>data\<close>.\<close>

definition warnings :: "world \<Rightarrow> log_entry list" where
  "warnings w = filter (\<lambda>e. log_level e = WARNING) (logs w)"

definition warning_entry :: "string \<Rightarrow> json \<Rightarrow> log_entry" where
  "warning_entry fmt v = \<lparr>log_level = WARNING, log_msg = LJson (JStr fmt), log_args = [LJson v]\<rparr>"

text \<open>
  The envelopes the transport accepts: code 200, or code 250 when no token was supplied
  (see \<open>get_response_ok_iff\<close> below).
\<close>

definition transport_ok :: "(string \<times> json) list \<Rightarrow> json \<Rightarrow> bool" where
  "transport_ok kv tok =
     (map_of kv ''code'' = Some (JInt 200) \<or> (map_of kv ''code'' = Some (JInt 250) \<and> tok = JNull))"

section \<open>Transport: properties\<close>

lemma py_in_JObj: "py_in k (JObj kv) = Inr (map_of kv k \<noteq> None)"
  by (simp add: map_of_eq_None_iff)

lemma get_response_calls:
  "calls (snd (get_response E tok u p w)) =
     calls w @ [\<lparr>url = u, data = (case p of None \<Rightarrow> [Txt ''data={}''] | Some q \<Rightarrow> q),
                 headers = get_headers tok, timeout = 120\<rparr>]"
  by (simp add: get_response_def log_def Let_def
           split: http_outcome.splits sum.splits option.splits)

lemma get_response_files: "files (snd (get_response E tok u p w)) = files w"
  by (simp add: get_response_def log_def Let_def
           split: http_outcome.splits sum.splits option.splits)

lemma get_response_events: "events (snd (get_response E tok u p w)) = events w"
  by (simp add: get_response_def log_def Let_def
           split: http_outcome.splits sum.splits option.splits)

text \<open>
  The transport returns a body exactly when the provider sent a JSON object whose code
  is 200, or 250 while no token was supplied.
\<close>

lemma get_response_ok_iff:
  "fst (get_response E tok u p w) = Inr body \<longleftrightarrow>
     (\<exists>kv. body = JObj kv \<and> http E (length (calls w)) = Body body \<and>
        ((map_of kv ''code'' = Some (JInt 250) \<and> tok = JNull) \<or>
         map_of kv ''code'' = Some (JInt 200)))"
proof (cases "http E (length (calls w))")
  case NetFail
  then show ?thesis by (simp add: get_response_def log_def Let_def)
next
  case (NotJson content)
  then show ?thesis by (simp add: get_response_def log_def Let_def)
next
  case (Body b)
  then show ?thesis
    by (cases b)
       (auto simp: get_response_def log_def Let_def py_in_JObj simp del: py_in.simps(1)
             split: option.splits sum.splits if_splits)
qed

text \<open>
  C4, as the code has it. For a response body that is a JSON object: without \<open>code\<close> the
  transport raises \<open>RequestError\<close>; with code 250 and no token, and with code 200, it
  returns the body unchanged; with any other code (250 with a token included) and a
  \<open>message\<close> in the body it raises \<open>RequestError\<close> carrying that message.
\<close>

theorem get_response_classification:
  assumes "http E (length (calls w)) = Body (JObj kv)"
  shows "(map_of kv ''code'' = None \<longrightarrow>
            fst (get_response E tok u p w) =
              Inl (RequestError ([Txt ''Error with URL:[''] @ u @
                     [Txt '']: json:['', Fmt (JObj kv), Txt '']'']))) \<and>
         (map_of kv ''code'' = Some (JInt 250) \<and> tok = JNull \<longrightarrow>
            fst (get_response E tok u p w) = Inr (JObj kv)) \<and>
         (map_of kv ''code'' = Some (JInt 200) \<longrightarrow>
            fst (get_response E tok u p w) = Inr (JObj kv)) \<and>
         (map_of kv ''code'' = Some c \<and> c \<noteq> JInt 200 \<and> (c = JInt 250 \<longrightarrow> tok \<noteq> JNull) \<and>
          map_of kv ''message'' = Some m \<longrightarrow>
            fst (get_response E tok u p w) =
              Inl (RequestError ([Txt ''Error with URL:[''] @ u @
                     [Txt ''] - Code '', Fmt c, Txt '': '', Fmt m])))"
  using assms
  by (auto simp: get_response_def log_def Let_def py_in_JObj simp del: py_in.simps(1)
           split: option.splits)

theorem get_response_classification_witness:
  "fst (get_response (test_env (scripted [Body (JObj [(''message'', JStr ''x'')])]))
          JNull login_url None world0) =
     Inl (RequestError ([Txt ''Error with URL:[''] @ login_url @
            [Txt '']: json:['', Fmt (JObj [(''message'', JStr ''x'')]), Txt '']''])) \<and>
   fst (get_response (test_env (scripted [Body (JObj [(''code'', JInt 250)])]))
          JNull login_url None world0) = Inr (JObj [(''code'', JInt 250)]) \<and>
   fst (get_response (test_env (scripted [Body (JObj [(''code'', JInt 200), (''data'', JArr [])])]))
          (JStr ''tok'') login_url None world0) =
     Inr (JObj [(''code'', JInt 200), (''data'', JArr [])]) \<and>
   fst (get_response
          (test_env (scripted [Body (JObj [(''code'', JInt 250), (''message'', JStr ''no'')])]))
          (JStr ''tok'') login_url None world0) =
     Inl (RequestError ([Txt ''Error with URL:[''] @ login_url @
            [Txt ''] - Code '', Fmt (JInt 250), Txt '': '', Fmt (JStr ''no'')]))"
  using
    get_response_classification
      [of "test_env (scripted [Body (JObj [(''message'', JStr ''x'')])])" world0
          "[(''message'', JStr ''x'')]" JNull login_url None]
    get_response_classification
      [of "test_env (scripted [Body (JObj [(''code'', JInt 250)])])" world0
          "[(''code'', JInt 250)]" JNull login_url None]
    get_response_classification
      [of "test_env (scripted [Body (JObj [(''code'', JInt 200), (''data'', JArr [])])])" world0
          "[(''code'', JInt 200), (''data'', JArr [])]" "JStr ''tok''" login_url None]
    get_response_classification
      [of "test_env (scripted [Body (JObj [(''code'', JInt 250), (''message'', JStr ''no'')])])"
          world0 "[(''code'', JInt 250), (''message'', JStr ''no'')]" "JStr ''tok''" login_url None
          "JInt 250" "JStr ''no''"]
  by (simp add: test_env_def scripted_def world0_def)

text \<open>
  C4 as stated fails on two bodies: an object with an error code and no \<open>message\<close>, where
  the exception is \<open>KeyError\<close>, and a body that is a number, where it is \<open>TypeError\<close>.
\<close>

theorem get_response_counterexample:
  "fst (get_response (test_env (scripted [Body (JObj [(''code'', JInt 500)])]))
          (JStr ''tok'') login_url None world0) = Inl (KeyError ''message'') \<and>
   fst (get_response (test_env (scripted [Body (JInt 5)]))
          (JStr ''tok'') login_url None world0) = Inl TypeError"
  by (simp add: get_response_def test_env_def scripted_def world0_def log_def Let_def)

section \<open>Domain Mapper: properties\<close>


lemma of_char_lt: "(of_char c :: nat) < 256"
  by (cases c) simp

lemma capital_codes: "map of_char capital_letters = [65..<91::nat]"
  by code_simp

lemma small_codes: "map of_char small_letters = [97..<123::nat]"
  by code_simp

lemma small_from_capital:
  "small_letters = map (\<lambda>c. char_of ((of_char c :: nat) + 32)) capital_letters"
  by code_simp

lemma in_capital: "c \<in> set capital_letters \<longleftrightarrow> 65 \<le> (of_char c :: nat) \<and> (of_char c :: nat) \<le> 90"
proof -
  have "c \<in> set capital_letters \<longleftrightarrow> (of_char c :: nat) \<in> set (map of_char capital_letters)"
    by (auto simp: image_iff)
  also have "\<dots> \<longleftrightarrow> 65 \<le> (of_char c :: nat) \<and> (of_char c :: nat) < 91"
    by (simp only: capital_codes set_upt atLeastLessThan_iff)
  finally show ?thesis by auto
qed

lemma in_small: "c \<in> set small_letters \<longleftrightarrow> 97 \<le> (of_char c :: nat) \<and> (of_char c :: nat) \<le> 122"
proof -
  have "c \<in> set small_letters \<longleftrightarrow> (of_char c :: nat) \<in> set (map of_char small_letters)"
    by (auto simp: image_iff)
  also have "\<dots> \<longleftrightarrow> 97 \<le> (of_char c :: nat) \<and> (of_char c :: nat) < 123"
    by (simp only: small_codes set_upt atLeastLessThan_iff)
  finally show ?thesis by auto
qed

lemma spec_lower_char_eq: "spec_lower_char c = ascii_lower c"
proof -
  have "map_of (zip capital_letters small_letters) c =
          (if c \<in> set capital_letters then Some (char_of ((of_char c :: nat) + 32)) else None)"
    by (subst small_from_capital) (simp add: map_of_zip_map)
  then show ?thesis
    by (simp add: spec_lower_char_def ascii_lower_def in_capital Let_def)
qed

lemma ascii_letter_iff: "ascii_letter c \<longleftrightarrow> c \<in> set capital_letters \<or> c \<in> set small_letters"
  by (simp add: ascii_letter_def in_capital in_small Let_def)

lemma spec_char_single:
  "spec_char [c] =
     (if c \<in> set capital_letters then [ascii_lower c]
      else if c \<in> set small_letters then [c] else ''_'')"
proof -
  have "map_of (zip capital_letters small_letters) c =
          (if c \<in> set capital_letters then Some (char_of ((of_char c :: nat) + 32)) else None)"
    by (subst small_from_capital) (simp add: map_of_zip_map)
  then show ?thesis
    by (simp add: spec_char_def ascii_lower_def in_capital Let_def)
qed

lemma ascii_lower_letter: "ascii_letter (ascii_lower c) = ascii_letter c"
proof -
  have "(of_char c :: nat) + 32 < 256 \<Longrightarrow>
          (of_char (char_of ((of_char c :: nat) + 32) :: char) :: nat) = of_char c + 32"
    by simp
  then show ?thesis
    by (auto simp: ascii_letter_def ascii_lower_def Let_def)
qed

lemma sub_char_lower: "sub_char [ascii_lower c] = spec_char [c]"
proof -
  have s: "c \<in> set small_letters \<Longrightarrow> ascii_lower c = c"
    by (simp add: in_small ascii_lower_def Let_def)
  have n: "\<not> ascii_letter c \<Longrightarrow> ascii_lower c = c"
    by (auto simp: ascii_letter_def ascii_lower_def Let_def)
  have l: "ascii_letter (ascii_lower c) = ascii_letter c"
    by (rule ascii_lower_letter)
  show ?thesis
  proof (cases "c \<in> set capital_letters")
    case True
    then have "ascii_letter c" by (simp add: ascii_letter_iff)
    then have "ascii_letter (ascii_lower c)" by (simp only: l)
    with True show ?thesis by (simp add: sub_char_def spec_char_single)
  next
    case False
    show ?thesis
    proof (cases "c \<in> set small_letters")
      case True
      then have "ascii_letter c" by (simp add: ascii_letter_iff)
    then have "ascii_letter (ascii_lower c)" by (simp only: l)
      with True False show ?thesis by (simp add: sub_char_def spec_char_single s)
    next
      case False
      with \<open>c \<notin> set capital_letters\<close> have "\<not> ascii_letter c" by (simp add: ascii_letter_iff)
      with False \<open>c \<notin> set capital_letters\<close> show ?thesis
        by (simp add: sub_char_def spec_char_single n)
    qed
  qed
qed

lemma outside_not_letter: "\<not> is_ascii c \<Longrightarrow> \<not> ascii_letter c"
  by (simp add: is_ascii_def ascii_letter_def Let_def)

lemma cont_not_ascii: "is_cont c \<Longrightarrow> \<not> is_ascii c"
  by (simp add: is_cont_def is_ascii_def)

lemma sub_char_outside: "outside_ascii g \<Longrightarrow> sub_char g = ''_''"
  by (auto simp: outside_ascii_def sub_char_def outside_not_letter split: list.splits)

lemma spec_char_outside: "outside_ascii g \<Longrightarrow> spec_char g = ''_''"
proof (cases g)
  case Nil
  then show ?thesis by (simp add: spec_char_def)
next
  case (Cons c cs)
  assume o: "outside_ascii g"
  show ?thesis
  proof (cases cs)
    case Nil
    with Cons o have "\<not> is_ascii c" by (simp add: outside_ascii_def)
    then have "\<not> ascii_letter c" by (rule outside_not_letter)
    then show ?thesis
      using Cons Nil by (simp add: spec_char_single ascii_letter_iff)
  next
    case (Cons b bs)
    with \<open>g = c # cs\<close> show ?thesis by (simp add: spec_char_def)
  qed
qed

lemma lowers_to_sub: "lowers_to a b \<Longrightarrow> sub_char b = spec_char a"
proof (cases a)
  case Nil
  assume "lowers_to a b"
  with Nil show ?thesis
    by (simp add: lowers_to_def sub_char_outside spec_char_def)
next
  case (Cons c cs)
  assume l: "lowers_to a b"
  show ?thesis
  proof (cases cs)
    case Nil
    show ?thesis
    proof (cases "is_ascii c")
      case True
      with l Cons Nil have "b = [spec_lower_char c]" by (simp add: lowers_to_def)
      then show ?thesis using Cons Nil by (simp add: spec_lower_char_eq sub_char_lower)
    next
      case False
      with l Cons Nil have "outside_ascii b" by (simp add: lowers_to_def)
      moreover have "outside_ascii a" using Cons Nil False by (simp add: outside_ascii_def)
      ultimately show ?thesis by (simp add: sub_char_outside spec_char_outside)
    qed
  next
    case (Cons x xs)
    with l \<open>a = c # cs\<close> have "outside_ascii b" by (simp add: lowers_to_def)
    moreover have "outside_ascii a" using Cons \<open>a = c # cs\<close> by (simp add: outside_ascii_def)
    ultimately show ?thesis by (simp add: sub_char_outside spec_char_outside)
  qed
qed

lemma sub_non_letters_charwise:
  "lowers_charwise s t \<Longrightarrow> sub_non_letters t = spec_token s"
proof -
  assume "lowers_charwise s t"
  then have "list_all2 lowers_to (code_points s) (code_points t)"
    by (simp add: lowers_charwise_def)
  then have "map sub_char (code_points t) = map spec_char (code_points s)"
    by (induction rule: list_all2_induct) (simp_all add: lowers_to_sub)
  then show ?thesis
    by (simp add: sub_non_letters_def spec_token_def)
qed

lemma code_points_ascii: "list_all is_ascii s \<Longrightarrow> code_points s = map (\<lambda>c. [c]) s"
proof (induction s)
  case Nil
  then show ?case by simp
next
  case (Cons c cs)
  then show ?case
    by (cases cs) (auto simp: cont_not_ascii)
qed

lemma is_ascii_lower:
  assumes "is_ascii c"
  shows "is_ascii (ascii_lower c)"
proof -
  have "(of_char c :: nat) + 32 < 256 \<Longrightarrow>
          (of_char (char_of ((of_char c :: nat) + 32) :: char) :: nat) = of_char c + 32"
    by simp
  then show ?thesis
    using assms by (auto simp: is_ascii_def ascii_lower_def Let_def)
qed

lemma ascii_lowers_charwise: "list_all is_ascii s \<Longrightarrow> lowers_charwise s (map ascii_lower s)"
proof -
  assume a: "list_all is_ascii s"
  then have b: "list_all is_ascii (map ascii_lower s)"
    by (induction s) (simp_all add: is_ascii_lower)
  have "list_all2 lowers_to (map (\<lambda>c. [c]) s) (map (\<lambda>c. [c]) (map ascii_lower s))"
    using a by (induction s) (simp_all add: lowers_to_def spec_lower_char_eq)
  then show ?thesis
    by (simp add: lowers_charwise_def code_points_ascii[OF a] code_points_ascii[OF b])
qed

text \<open>
  C9, as the code has it. For a student whose names are strings made of ASCII characters,
  or strings whose lower case goes character by character, \<open>get_fullname_lower\<close> returns
  the two names, each with its letters of A to Z in lower case and every other character
  replaced by one underscore, joined by an underscore. The witness has the student
  Jean-Paul O'Brien, whose token is \<open>jean_paul_o_brien\<close>, and a first name that begins
  with U+00C9.
\<close>

theorem get_fullname_lower_spec:
  assumes "eleve_firstname self = JStr f" and "eleve_lastname self = JStr l"
    and "list_all is_ascii f \<or> lowers_charwise f (lower E f)"
    and "list_all is_ascii l \<or> lowers_charwise l (lower E l)"
  shows "get_fullname_lower E self = Inr (spec_token f @ ''_'' @ spec_token l)"
proof -
  have f: "sub_non_letters (if list_all is_ascii f then map ascii_lower f else lower E f) =
             spec_token f"
    using assms(3) by (auto intro: sub_non_letters_charwise ascii_lowers_charwise)
  have l: "sub_non_letters (if list_all is_ascii l then map ascii_lower l else lower E l) =
             spec_token l"
    using assms(4) by (auto intro: sub_non_letters_charwise ascii_lowers_charwise)
  show ?thesis
    using assms(1,2) f l
    by (simp add: get_fullname_lower_def str_lower_def ebind_def)
qed

lemma ascii_jean_paul: "list_all is_ascii ''Jean-Paul''"
  by code_simp

lemma ascii_o_brien: "list_all is_ascii (''O'' @ [CHR 0x27] @ ''Brien'')"
  by code_simp

lemma spec_token_jean_paul: "spec_token ''Jean-Paul'' = ''jean_paul''"
  by code_simp

lemma spec_token_o_brien: "spec_token (''O'' @ [CHR 0x27] @ ''Brien'') = ''o_brien''"
  by code_simp

lemma spec_token_eric: "spec_token name_eric = ''_ric''"
  by code_simp

lemma eric_lowers_charwise: "lowers_charwise name_eric (lower_table name_eric)"
  by code_simp

theorem get_fullname_lower_spec_witness:
  "get_fullname_lower (test_env (scripted [])) jean_paul = Inr ''jean_paul_o_brien'' \<and>
   get_fullname_lower (test_env (scripted [])) eric_obrien = Inr ''_ric_o_brien''"
proof -
  have 1: "eleve_firstname jean_paul = JStr ''Jean-Paul''"
    and 2: "eleve_lastname jean_paul = JStr (''O'' @ [CHR 0x27] @ ''Brien'')"
    by (simp_all add: jean_paul_def del: append.simps)
  have 3: "eleve_firstname eric_obrien = JStr name_eric"
    and 4: "eleve_lastname eric_obrien = JStr (''O'' @ [CHR 0x27] @ ''Brien'')"
    by (simp_all add: eric_obrien_def del: append.simps)
  have 5: "lowers_charwise name_eric (lower (test_env (scripted [])) name_eric)"
    by (simp add: test_env_def eric_lowers_charwise)
  show ?thesis
    using get_fullname_lower_spec[OF 1 2 disjI1[OF ascii_jean_paul] disjI1[OF ascii_o_brien]]
      get_fullname_lower_spec[OF 3 4 disjI2[OF 5] disjI1[OF ascii_o_brien]]
    by (simp add: spec_token_jean_paul spec_token_o_brien spec_token_eric del: append.simps)
qed

text \<open>
  C9 as stated fails on names outside ASCII: the capital letter U+0130 of the first name
  becomes \<open>i\<close> and an underscore, and the Kelvin sign of the last name becomes \<open>k\<close>, where
  the claim has one underscore for each.
\<close>

lemma spec_token_inan: "spec_token name_inan = ''_nan''"
  by code_simp

lemma spec_token_kelvin_arl: "spec_token name_kelvin_arl = ''_arl''"
  by code_simp

theorem get_fullname_lower_counterexample:
  "get_fullname_lower (test_env (scripted [])) inan_kelvin = Inr ''i_nan_karl'' \<and>
   spec_token name_inan @ ''_'' @ spec_token name_kelvin_arl = ''_nan__arl''"
proof
  show "get_fullname_lower (test_env (scripted [])) inan_kelvin = Inr ''i_nan_karl''"
    by code_simp
next
  show "spec_token name_inan @ ''_'' @ spec_token name_kelvin_arl = ''_nan__arl''"
    by (simp add: spec_token_inan spec_token_kelvin_arl)
qed





section \<open>Data-Fetch Operations: properties\<close>

lemma get_response_ok:
  assumes "http E (length (calls w)) = Body (JObj kv)" and "transport_ok kv tok"
  shows "get_response E tok u p w =
           (Inr (JObj kv),
            log DEBUG ''%s'' [LJson (JObj kv)]
              ((log DEBUG ''URL: [%s] - Payload: [%s]''
                  [LText u, LText (case p of None \<Rightarrow> [Txt ''data={}''] | Some q \<Rightarrow> q)] w)
               \<lparr>calls := calls w @
                  [\<lparr>url = u, data = (case p of None \<Rightarrow> [Txt ''data={}''] | Some q \<Rightarrow> q),
                    headers = get_headers tok, timeout = 120\<rparr>]\<rparr>))"
  using assms
  by (auto simp: get_response_def transport_ok_def log_def Let_def py_in_JObj
           simp del: py_in.simps(1) split: option.splits)

lemma data_or_warn_ok:
  assumes "http E (length (calls w)) = Body (JObj kv)" and "transport_ok kv tok"
  shows "fst (data_or_warn fmt (get_response E tok u p w)) = Inr (lookup_or kv ''data'' JNull)"
    and "warnings (snd (data_or_warn fmt (get_response E tok u p w))) =
           warnings w @ (if map_of kv ''data'' = None then [warning_entry fmt (JObj kv)] else [])"
    and "length (calls (snd (data_or_warn fmt (get_response E tok u p w)))) = Suc (length (calls w))"
  by (auto simp: get_response_ok[OF assms] data_or_warn_def py_in_JObj lookup_or_def warnings_def
        warning_entry_def log_def simp del: py_in.simps(1) split: option.splits)

text \<open>
  C8. When the provider answers a data-fetch operation with an envelope the transport
  accepts, the operation does not raise: it returns the value of the field \<open>data\<close> when
  the body has one, and otherwise returns \<open>None\<close> after logging one warning that carries
  the body. This holds for the homework of a date, all the homework, the grades and the
  lessons.
\<close>

theorem fetch_data_or_none:
  assumes "http E (length (calls w)) = Body (JObj kv)" and "transport_ok kv tok"
  shows
   "fst (get_homeworks_by_date E tok eleve day w) = Inr (lookup_or kv ''data'' JNull) \<and>
    warnings (snd (get_homeworks_by_date E tok eleve day w)) =
      warnings w @ (if map_of kv ''data'' = None
                    then [warning_entry ''get_homeworks_by_date: [%s]'' (JObj kv)] else []) \<and>
    fst (get_homeworks E tok eleve w) = Inr (lookup_or kv ''data'' JNull) \<and>
    warnings (snd (get_homeworks E tok eleve w)) =
      warnings w @ (if map_of kv ''data'' = None
                    then [warning_entry ''get_homeworks: [%s]'' (JObj kv)] else []) \<and>
    fst (get_grades E tok eleve year w) = Inr (lookup_or kv ''data'' JNull) \<and>
    warnings (snd (get_grades E tok eleve year w)) =
      warnings w @ (if map_of kv ''data'' = None
                    then [warning_entry ''get_grades: [%s]'' (JObj kv)] else []) \<and>
    fst (get_lessons E tok eleve d1 d2 w) = Inr (lookup_or kv ''data'' JNull) \<and>
    warnings (snd (get_lessons E tok eleve d1 d2 w)) =
      warnings w @ (if map_of kv ''data'' = None
                    then [warning_entry ''get_lessons: [%s]'' (JObj kv)] else [])"
  unfolding get_homeworks_by_date_def get_homeworks_def get_grades_def get_lessons_def
  by (simp only: data_or_warn_ok[OF assms] simp_thms)


theorem fetch_data_or_none_witness:
  "fst (get_homeworks_by_date (test_env (scripted [Body (JObj [(''code'', JInt 200)])]))
          (JStr ''tok'') jean_paul (JStr ''2024-05-02'') world0) = Inr JNull \<and>
   warnings (snd (get_homeworks_by_date (test_env (scripted [Body (JObj [(''code'', JInt 200)])]))
          (JStr ''tok'') jean_paul (JStr ''2024-05-02'') world0)) =
     [warning_entry ''get_homeworks_by_date: [%s]'' (JObj [(''code'', JInt 200)])] \<and>
   fst (get_lessons
          (test_env (scripted [Body (JObj [(''code'', JInt 200), (''data'', JArr [JInt 1])])]))
          (JStr ''tok'') jean_paul (JStr ''2024-05-02'') (JStr ''2024-05-03'') world0) =
     Inr (JArr [JInt 1]) \<and>
   warnings (snd (get_lessons
          (test_env (scripted [Body (JObj [(''code'', JInt 200), (''data'', JArr [JInt 1])])]))
          (JStr ''tok'') jean_paul (JStr ''2024-05-02'') (JStr ''2024-05-03'') world0)) = []"
proof -
  have a: "http (test_env (scripted [Body (JObj [(''code'', JInt 200)])])) (length (calls world0)) =
             Body (JObj [(''code'', JInt 200)])"
    by (simp add: test_env_def scripted_def world0_def)
  have b: "transport_ok [(''code'', JInt 200)] (JStr ''tok'')"
    by (simp add: transport_ok_def)
  have c: "http (test_env (scripted [Body (JObj [(''code'', JInt 200), (''data'', JArr [JInt 1])])]))
             (length (calls world0)) =
           Body (JObj [(''code'', JInt 200), (''data'', JArr [JInt 1])])"
    by (simp add: test_env_def scripted_def world0_def)
  have d: "transport_ok [(''code'', JInt 200), (''data'', JArr [JInt 1])] (JStr ''tok'')"
    by (simp add: transport_ok_def)
  have e: "warnings world0 = []"
    by (simp add: warnings_def world0_def)
  show ?thesis
    using fetch_data_or_none[OF a b, of jean_paul "JStr ''2024-05-02''"]
      fetch_data_or_none[OF c d, of jean_paul _ _ "JStr ''2024-05-02''" "JStr ''2024-05-03''"]
    by (simp add: e lookup_or_def)
qed

section \<open>Authentication Handshake: properties\<close>

subsection \<open>The requests of the challenge\<close>

lemma data_or_warn_calls:
  "calls (snd (data_or_warn fmt (get_response E tok u p w))) =
     calls w @ [\<lparr>url = u, data = (case p of None \<Rightarrow> [Txt ''data={}''] | Some q \<Rightarrow> q),
                 headers = get_headers tok, timeout = 120\<rparr>]"
  using get_response_calls[of E tok u p w]
  by (cases "get_response E tok u p w")
     (auto simp: data_or_warn_def log_def split: sum.splits)

lemma data_or_warn_files: "files (snd (data_or_warn fmt (get_response E tok u p w))) = files w"
  using get_response_files[of E tok u p w]
  by (cases "get_response E tok u p w")
     (auto simp: data_or_warn_def log_def split: sum.splits)

lemma data_or_warn_events: "events (snd (data_or_warn fmt (get_response E tok u p w))) = events w"
  using get_response_events[of E tok u p w]
  by (cases "get_response E tok u p w")
     (auto simp: data_or_warn_def log_def split: sum.splits)



lemma get_qcm_connexion_ok:
  assumes "http E (length (calls w)) = Body (JObj kv)" and "transport_ok kv tok"
  shows "fst (get_qcm_connexion E tok w) = Inr (lookup_or kv ''data'' JNull)"
  unfolding get_qcm_connexion_def by (rule data_or_warn_ok(1)[OF assms])

lemma get_qcm_connexion_world:
  "calls (snd (get_qcm_connexion E tok w)) =
     calls w @ [\<lparr>url = [Txt (APIURL @ ''/connexion/doubleauth.awp?verbe=get&v='' @ APIVERSION)],
                 data = [Txt ''data={}''], headers = get_headers tok, timeout = 120\<rparr>]"
  "files (snd (get_qcm_connexion E tok w)) = files w"
  "events (snd (get_qcm_connexion E tok w)) = events w"
  unfolding get_qcm_connexion_def
  by (simp_all add: data_or_warn_calls data_or_warn_files data_or_warn_events)

lemma post_qcm_connexion_ok:
  assumes "http E (length (calls w)) = Body (JObj kv)" and "transport_ok kv tok"
  shows "fst (post_qcm_connexion E tok r w) = Inr (lookup_or kv ''data'' JNull)"
  unfolding post_qcm_connexion_def by (rule data_or_warn_ok(1)[OF assms])

lemma post_qcm_connexion_world:
  \<open>calls (snd (post_qcm_connexion E tok r w)) =
     calls w @ [\<lparr>url = [Txt (APIURL @ ''/connexion/doubleauth.awp?verbe=post&v='' @ APIVERSION)],
                 data = [Txt ''data={"choix": "'', Fmt (JStr r), Txt ''"}''],
                 headers = get_headers tok, timeout = 120\<rparr>]\<close>
  "files (snd (post_qcm_connexion E tok r w)) = files w"
  "events (snd (post_qcm_connexion E tok r w)) = events w"
  unfolding post_qcm_connexion_def
  by (simp_all add: data_or_warn_calls data_or_warn_files data_or_warn_events)

subsection \<open>One pass of the loop\<close>

text \<open>
  The three ways through the body of the loop, when the provider poses a question whose
  text decodes: the cache holds several answers for it, the cache holds one answer, or
  the cache does not know it.
\<close>

lemma iteration_ambiguous:
  assumes tok: "getitem login ''token'' = Inr tok"
    and r1: "http E (length (calls w)) = Body (JObj kv1)" "transport_ok kv1 tok"
    and q: "getitem (lookup_or kv1 ''data'' JNull) ''question'' = Inr (JStr qb)"
           "b64decode E qb = Some question"
    and c: "map_of cache question = Some answers" "py_len answers = Inr n" "1 < n"
  shows "qcm_iteration E d p login t (JObj cache) w =
           (Inr (Continue (t - 1) (JObj cache)), snd (get_qcm_connexion E tok w))"
  using tok q c get_qcm_connexion_ok[OF r1]
  by (simp add: qcm_iteration_def ebind_def b64decode_utf8_def py_in_JObj case_prod_beta
        del: py_in.simps(1))

lemma iteration_answered:
  assumes tok: "getitem login ''token'' = Inr tok"
    and r1: "http E (length (calls w)) = Body (JObj kv1)" "transport_ok kv1 tok"
    and q: "getitem (lookup_or kv1 ''data'' JNull) ''question'' = Inr (JStr qb)"
           "b64decode E qb = Some question"
    and c: "map_of cache question = Some (JArr [JStr answer])"
    and r2: "http E (Suc (length (calls w))) = Body (JObj kv2)" "transport_ok kv2 tok"
  shows "qcm_iteration E d p login t (JObj cache) w =
           (let w1 = snd (get_qcm_connexion E tok w);
                w2 = snd (post_qcm_connexion E tok (b64encode E answer) w1);
                cn_et_cv = lookup_or kv2 ''data'' JNull
            in if \<not> truthy cn_et_cv then
                 (Inr (Continue t (JObj cache)),
                  log WARNING qcm_rate [LJson (JStr question), LJson cn_et_cv] w2)
               else (case ebind (getitem cn_et_cv ''cn'') (\<lambda>cn.
                            ebind (getitem cn_et_cv ''cv'') (\<lambda>cv. Inr (cn, cv))) of
                       Inl e \<Rightarrow> (Inl e, w2)
                     | Inr (cn, cv) \<Rightarrow> (Inr (Break cn cv), w2)))"
proof -
  let ?w1 = "snd (get_qcm_connexion E tok w)"
  have len: "length (calls ?w1) = Suc (length (calls w))"
    by (simp add: get_qcm_connexion_world)
  have p: "fst (post_qcm_connexion E tok (b64encode E answer) ?w1) =
             Inr (lookup_or kv2 ''data'' JNull)"
    by (rule post_qcm_connexion_ok) (simp_all add: len r2)
  show ?thesis
    using tok q c get_qcm_connexion_ok[OF r1] p
    by (simp add: qcm_iteration_def ebind_def b64decode_utf8_def b64encode_utf8_def py_in_JObj
          Let_def case_prod_beta del: py_in.simps(1))
qed



text \<open>
  C6. Whenever the loop is entered with retries left, the provider poses a question that
  the cache maps to exactly one answer, and the provider accepts the answer with a
  verification pair, the loop ends at once with that pair: it has posted the challenge
  request and the cached answer in Base64, it has not written any file, and the retry
  counter is the one it started with.
\<close>

theorem cached_answer_accepted:
  assumes "0 < t"
    and "getitem login ''token'' = Inr tok"
    and "http E (length (calls w)) = Body (JObj kv1)" and "transport_ok kv1 tok"
    and "map_of kv1 ''data'' = Some qcm"
    and "getitem qcm ''question'' = Inr (JStr qb)" and "b64decode E qb = Some question"
    and "map_of cache question = Some (JArr [JStr answer])"
    and "http E (Suc (length (calls w))) = Body (JObj kv2)" and "transport_ok kv2 tok"
    and "map_of kv2 ''data'' = Some cn_et_cv" and "truthy cn_et_cv"
    and "getitem cn_et_cv ''cn'' = Inr cn" and "getitem cn_et_cv ''cv'' = Inr cv"
  shows \<open>\<exists>w'. qcm_loop E d p login t (JObj cache) w = Some (Inr (t, Some (cn, cv)), w') \<and>
              calls w' = calls w @
                [\<lparr>url = [Txt (APIURL @ ''/connexion/doubleauth.awp?verbe=get&v='' @ APIVERSION)],
                  data = [Txt ''data={}''], headers = get_headers tok, timeout = 120\<rparr>,
                 \<lparr>url = [Txt (APIURL @ ''/connexion/doubleauth.awp?verbe=post&v='' @ APIVERSION)],
                  data = [Txt ''data={"choix": "'', Fmt (JStr (b64encode E answer)), Txt ''"}''],
                  headers = get_headers tok, timeout = 120\<rparr>] \<and>
              files w' = files w \<and> events w' = events w\<close>
proof -
  let ?w2 = "snd (post_qcm_connexion E tok (b64encode E answer) (snd (get_qcm_connexion E tok w)))"
  have q: "getitem (lookup_or kv1 ''data'' JNull) ''question'' = Inr (JStr qb)"
    using assms(5,6) by (simp add: lookup_or_def)
  have it: "qcm_iteration E d p login t (JObj cache) w = (Inr (Break cn cv), ?w2)"
    using assms(11-14)
    by (simp add: iteration_answered[OF assms(2,3,4) q assms(7,8,9,10)] lookup_or_def Let_def
          ebind_def)
  have "qcm_loop E d p login t (JObj cache) w = Some (Inr (t, Some (cn, cv)), ?w2)"
    using assms(1) by (subst qcm_loop.simps) (simp add: it)
  then show ?thesis
    by (simp add: post_qcm_connexion_world get_qcm_connexion_world)
qed

theorem cached_answer_accepted_witness:
  \<open>\<exists>w'. qcm_loop (test_env (scripted [Body challenge_Q, Body answer_accepted])) creds ''/config''
           login_250 5 cache_Q_42 (world_with_qcm cache_Q_42) =
         Some (Inr (5, Some (JStr ''Y24='', JStr ''Y3Y='')), w') \<and>
         calls w' =
           [\<lparr>url = [Txt (APIURL @ ''/connexion/doubleauth.awp?verbe=get&v='' @ APIVERSION)],
             data = [Txt ''data={}''], headers = get_headers (JStr ''tok''), timeout = 120\<rparr>,
            \<lparr>url = [Txt (APIURL @ ''/connexion/doubleauth.awp?verbe=post&v='' @ APIVERSION)],
             data = [Txt ''data={"choix": "'', Fmt (JStr ''NDI=''), Txt ''"}''],
             headers = get_headers (JStr ''tok''), timeout = 120\<rparr>] \<and>
         files w' = files (world_with_qcm cache_Q_42)\<close>
proof -
  let ?E = "test_env (scripted [Body challenge_Q, Body answer_accepted])"
  let ?w = "world_with_qcm cache_Q_42"
  have t: "(0::int) < 5" by simp
  have tok: "getitem login_250 ''token'' = Inr (JStr ''tok'')" by (simp add: login_250_def)
  have r1: "http ?E (length (calls ?w)) =
              Body (JObj [(''code'', JInt 200),
                (''data'', JObj [(''question'', JStr ''UQ==''),
                   (''propositions'', JArr [JStr ''NDE='', JStr ''NDI='', JStr ''NDM=''])])])"
    by (simp add: test_env_def scripted_def world_with_qcm_def challenge_Q_def)
  have ok1: "transport_ok [(''code'', JInt 200),
                (''data'', JObj [(''question'', JStr ''UQ==''),
                   (''propositions'', JArr [JStr ''NDE='', JStr ''NDI='', JStr ''NDM=''])])]
               (JStr ''tok'')"
    by (simp add: transport_ok_def)
  have d1: "map_of [(''code'', JInt 200),
                (''data'', JObj [(''question'', JStr ''UQ==''),
                   (''propositions'', JArr [JStr ''NDE='', JStr ''NDI='', JStr ''NDM=''])])] ''data'' =
            Some (JObj [(''question'', JStr ''UQ==''),
                   (''propositions'', JArr [JStr ''NDE='', JStr ''NDI='', JStr ''NDM=''])])"
    by simp
  have q: "getitem (JObj [(''question'', JStr ''UQ==''),
                   (''propositions'', JArr [JStr ''NDE='', JStr ''NDI='', JStr ''NDM=''])])
             ''question'' = Inr (JStr ''UQ=='')"
    by simp
  have dec: "b64decode ?E ''UQ=='' = Some ''Q''"
    by (simp add: test_env_def b64_table_decode_def b64_pairs_def)
  have c: "map_of [(''Q'', JArr [JStr ''42''])] ''Q'' = Some (JArr [JStr ''42''])" by simp
  have r2: "http ?E (Suc (length (calls ?w))) =
              Body (JObj [(''code'', JInt 200),
                          (''data'', JObj [(''cn'', JStr ''Y24=''), (''cv'', JStr ''Y3Y='')])])"
    by (simp add: test_env_def scripted_def world_with_qcm_def answer_accepted_def)
  have ok2: "transport_ok [(''code'', JInt 200),
                          (''data'', JObj [(''cn'', JStr ''Y24=''), (''cv'', JStr ''Y3Y='')])]
               (JStr ''tok'')"
    by (simp add: transport_ok_def)
  have d2: "map_of [(''code'', JInt 200),
                    (''data'', JObj [(''cn'', JStr ''Y24=''), (''cv'', JStr ''Y3Y='')])] ''data'' =
            Some (JObj [(''cn'', JStr ''Y24=''), (''cv'', JStr ''Y3Y='')])"
    by simp
  have tr: "truthy (JObj [(''cn'', JStr ''Y24=''), (''cv'', JStr ''Y3Y='')])" by simp
  have cn: "getitem (JObj [(''cn'', JStr ''Y24=''), (''cv'', JStr ''Y3Y='')]) ''cn'' = Inr (JStr ''Y24='')"
    by simp
  have cv: "getitem (JObj [(''cn'', JStr ''Y24=''), (''cv'', JStr ''Y3Y='')]) ''cv'' = Inr (JStr ''Y3Y='')"
    by simp
  have enc: "b64encode ?E ''42'' = ''NDI=''"
    by (simp add: test_env_def b64_table_encode_def b64_pairs_def)
  have w0: "calls ?w = []" by (simp add: world_with_qcm_def)
  show ?thesis
    using cached_answer_accepted[OF t tok r1 ok1 d1 q dec c r2 ok2 d2 tr cn cv,
            of creds "''/config''"]
    unfolding cache_Q_42_def[symmetric] enc w0 append_Nil by blast
qed




subsection \<open>The first login\<close>

lemma first_payload_creds: "first_payload (test_env pr) creds = Inr alice_payload"
  by (simp add: first_payload_def cred_def creds_def ebind_def test_env_def quote_plain_def
        alice_payload_def)

lemma load_qcm_not_QCMError: "load_qcm w path = Inl e \<Longrightarrow> \<not> is_QCMError e"
  by (auto simp: load_qcm_def split: file_state.splits)

text \<open>The first login, when the provider asks for the challenge.\<close>

lemma session_try_challenge:
  assumes "first_payload E d = Inr payload"
    and "http E (length (calls w)) = Body (JObj kv)"
    and "map_of kv ''code'' = Some (JInt 250)"
  shows "session_try E d p w =
           (case resolve_challenge E d p (JObj kv)
                   (snd (get_response E JNull login_url (Some [Txt payload]) w)) of
              None \<Rightarrow> None
            | Some (Inl e, w2) \<Rightarrow> Some (Inl e, w2)
            | Some (Inr login2, w2) \<Rightarrow> Some (connection_ok login2 w2))"
proof -
  have ok: "transport_ok kv JNull" using assms(3) by (simp add: transport_ok_def)
  have "fst (get_response E JNull login_url (Some [Txt payload]) w) = Inr (JObj kv)"
    by (simp add: get_response_ok[OF assms(2) ok])
  then show ?thesis
    using assms(1,3) by (simp add: session_try_def case_prod_beta)
qed

lemma load_failure_ends_try:
  assumes "first_payload E d = Inr payload"
    and "http E (length (calls w)) = Body (JObj kv)"
    and "map_of kv ''code'' = Some (JInt 250)"
    and "load_qcm w (qcm_path p) = Inl err"
  shows "session_try E d p w =
           Some (Inl err, snd (get_response E JNull login_url (Some [Txt payload]) w))"
proof -
  let ?w1 = "snd (get_response E JNull login_url (Some [Txt payload]) w)"
  have "load_qcm ?w1 (qcm_path p) = Inl err"
    using assms(4) by (simp add: load_qcm_def get_response_files)
  then have "resolve_challenge E d p (JObj kv) ?w1 = Some (Inl err, ?w1)"
    by (simp add: resolve_challenge_def)
  then show ?thesis
    by (simp add: session_try_challenge[OF assms(1-3)])
qed

text \<open>
  C3, as the code has it. When the first login asks for the challenge and the cache file
  is absent, unreadable or not JSON, \<open>get_ecoledirecte_session\<close> catches the error of the
  load, logs it as critical and returns \<open>None\<close>; no file is created or changed and no
  further request is sent.
\<close>

theorem unreadable_cache_no_session:
  assumes "first_payload E d = Inr payload"
    and "http E (length (calls w)) = Body (JObj kv)"
    and "map_of kv ''code'' = Some (JInt 250)"
    and "load_qcm w (qcm_path p) = Inl err"
  shows "get_ecoledirecte_session E d p w =
           Some (Inr None,
                 log_exn CRITICAL err (snd (get_response E JNull login_url (Some [Txt payload]) w))) \<and>
         files (log_exn CRITICAL err (snd (get_response E JNull login_url (Some [Txt payload]) w)))
           = files w \<and>
         length (calls (log_exn CRITICAL err
                   (snd (get_response E JNull login_url (Some [Txt payload]) w))))
           = Suc (length (calls w))"
  using load_failure_ends_try[OF assms] load_qcm_not_QCMError[OF assms(4)]
  by (simp add: get_ecoledirecte_session_def log_exn_def get_response_files get_response_calls)

theorem unreadable_cache_no_session_witness:
  "get_ecoledirecte_session (test_env (scripted [Body login_250])) creds ''/config'' world0 =
     Some (Inr None,
           log_exn CRITICAL FileNotFoundError
             (snd (get_response (test_env (scripted [Body login_250])) JNull login_url
                (Some [Txt alice_payload])
                world0)))"
proof -
  have a: "first_payload (test_env (scripted [Body login_250])) creds = Inr alice_payload"
    by (rule first_payload_creds)
  have b: "http (test_env (scripted [Body login_250])) (length (calls world0)) =
             Body (JObj [(''code'', JInt 250), (''token'', JStr ''tok'')])"
    by (simp add: test_env_def scripted_def world0_def login_250_def)
  have c: "map_of [(''code'', JInt 250), (''token'', JStr ''tok'')] ''code'' = Some (JInt 250)"
    by simp
  have d: "load_qcm world0 (qcm_path ''/config'') = Inl FileNotFoundError"
    by (simp add: load_qcm_def world0_def no_file_def)
  show ?thesis
    using unreadable_cache_no_session[OF a b c d] by simp
qed

text \<open>
  C3 as stated fails: with the file absent the error does not leave
  \<open>get_ecoledirecte_session\<close>, whose result is \<open>None\<close>.
\<close>

theorem unreadable_cache_counterexample:
  "map_option fst
     (get_ecoledirecte_session (test_env (scripted [Body login_250])) creds ''/config'' world0) =
   Some (Inr None)"
proof -
  have a: "first_payload (test_env (scripted [Body login_250])) creds = Inr alice_payload"
    by (rule first_payload_creds)
  have b: "http (test_env (scripted [Body login_250])) (length (calls world0)) =
             Body (JObj [(''code'', JInt 250), (''token'', JStr ''tok'')])"
    by (simp add: test_env_def scripted_def world0_def login_250_def)
  have c: "map_of [(''code'', JInt 250), (''token'', JStr ''tok'')] ''code'' = Some (JInt 250)"
    by simp
  have d: "load_qcm world0 (qcm_path ''/config'') = Inl FileNotFoundError"
    by (simp add: load_qcm_def world0_def no_file_def)
  show ?thesis
    by (simp add: get_ecoledirecte_session_def load_failure_ends_try[OF a b c d])
qed

subsection \<open>A cached answer that the provider turns down\<close>

lemma rejected_pass:
  assumes "odd (length (calls w))"
  shows "\<exists>w'. qcm_iteration (test_env rejecting_provider) d p login_250 t cache_Q_42 w =
                 (Inr (Continue t cache_Q_42), w') \<and> odd (length (calls w'))"
proof -
  let ?E = "test_env rejecting_provider"
  have h1: "http ?E (length (calls w)) =
              Body (JObj [(''code'', JInt 200),
                (''data'', JObj [(''question'', JStr ''UQ==''),
                   (''propositions'', JArr [JStr ''NDE='', JStr ''NDI='', JStr ''NDM=''])])])"
    using assms by (auto simp: test_env_def rejecting_provider_def challenge_Q_def)
  have h2: "http ?E (Suc (length (calls w))) = Body (JObj [(''code'', JInt 200), (''data'', JObj [])])"
    using assms by (auto simp: test_env_def rejecting_provider_def answer_rejected_def)
  have it: "qcm_iteration ?E d p login_250 t (JObj [(''Q'', JArr [JStr ''42''])]) w = 
     (let w1 = snd (get_qcm_connexion ?E (JStr ''tok'') w);
                w2 = snd (post_qcm_connexion ?E (JStr ''tok'') (b64encode ?E ''42'') w1);
                cn_et_cv = lookup_or [(''code'', JInt 200), (''data'', JObj [])] ''data'' JNull
            in if \<not> truthy cn_et_cv then
                 (Inr (Continue t (JObj [(''Q'', JArr [JStr ''42''])])),
                  log WARNING qcm_rate [LJson (JStr ''Q''), LJson cn_et_cv] w2)
               else (case ebind (getitem cn_et_cv ''cn'') (\<lambda>cn.
                            ebind (getitem cn_et_cv ''cv'') (\<lambda>cv. Inr (cn, cv))) of
                       Inl e \<Rightarrow> (Inl e, w2)
                     | Inr (cn, cv) \<Rightarrow> (Inr (Break cn cv), w2)))"
    by (rule iteration_answered[OF _ h1 _ _ _ _ h2])
       (simp_all add: login_250_def transport_ok_def lookup_or_def test_env_def
          b64_table_decode_def b64_pairs_def)
  have it2: "qcm_iteration ?E d p login_250 t (JObj [(''Q'', JArr [JStr ''42''])]) w =
      (Inr (Continue t (JObj [(''Q'', JArr [JStr ''42''])])),
       log WARNING qcm_rate [LJson (JStr ''Q''), LJson (JObj [])]
         (snd (post_qcm_connexion ?E (JStr ''tok'') (b64encode ?E ''42'')
            (snd (get_qcm_connexion ?E (JStr ''tok'') w)))))"
    unfolding it by (simp add: lookup_or_def Let_def)
  have "odd (length (calls (log WARNING qcm_rate [LJson (JStr ''Q''), LJson (JObj [])]
         (snd (post_qcm_connexion ?E (JStr ''tok'') (b64encode ?E ''42'')
            (snd (get_qcm_connexion ?E (JStr ''tok'') w)))))))"
    using assms by (simp add: log_def post_qcm_connexion_world get_qcm_connexion_world)
  then show ?thesis
    unfolding cache_Q_42_def it2 by blast
qed

lemma rejected_loop_diverges:
  "odd (length (calls w)) \<Longrightarrow>
     qcm_loop (test_env rejecting_provider) d p login_250 5 cache_Q_42 w = None"
proof (rule ccontr)
  assume odd: "odd (length (calls w))"
  assume "qcm_loop (test_env rejecting_provider) d p login_250 5 cache_Q_42 w \<noteq> None"
  then obtain y where y: "qcm_loop (test_env rejecting_provider) d p login_250 5 cache_Q_42 w = Some y"
    by blast
  have "\<not> (test_env rejecting_provider = test_env rejecting_provider \<and> login_250 = login_250 \<and>
           (5::int) = 5 \<and> cache_Q_42 = cache_Q_42 \<and> odd (length (calls w)))"
  proof (rule qcm_loop.raw_induct
      [where P = "\<lambda>E d p login t q w y. \<not> (E = test_env rejecting_provider \<and> login = login_250 \<and>
           t = 5 \<and> q = cache_Q_42 \<and> odd (length (calls w)))", OF _ y])
    fix f :: "env \<Rightarrow> (string \<rightharpoonup> string) \<Rightarrow> string \<Rightarrow> json \<Rightarrow> int \<Rightarrow> json \<Rightarrow> world
                 \<Rightarrow> ((exn + int \<times> (json \<times> json) option) \<times> world) option"
    fix E d p login t q w r
    assume IH: "\<And>E d p login t q w y. f E d p login t q w = Some y \<Longrightarrow>
                  \<not> (E = test_env rejecting_provider \<and> login = login_250 \<and> t = 5 \<and>
                      q = cache_Q_42 \<and> odd (length (calls w)))"
    assume step: "(if 0 < t
         then case qcm_iteration E d p login t q w of
              (Inl e, w') \<Rightarrow> Some (Inl e, w')
            | (Inr (Continue try_login' qcm_json'), w') \<Rightarrow> f E d p login try_login' qcm_json' w'
            | (Inr (Break cn cv), w') \<Rightarrow> Some (Inr (t, Some (cn, cv)), w')
         else Some (Inr (t, None), w)) = Some r"
    show "\<not> (E = test_env rejecting_provider \<and> login = login_250 \<and> t = 5 \<and>
              q = cache_Q_42 \<and> odd (length (calls w)))"
    proof
      assume inv: "E = test_env rejecting_provider \<and> login = login_250 \<and> t = 5 \<and>
              q = cache_Q_42 \<and> odd (length (calls w))"
      then obtain w' where
        w': "qcm_iteration E d p login t q w = (Inr (Continue 5 cache_Q_42), w')"
            "odd (length (calls w'))"
        using rejected_pass[of w d p 5] by auto
      from step inv w' have "f E d p login 5 cache_Q_42 w' = Some r" by simp
      with IH w'(2) inv show False by blast
    qed
  qed
  with odd show False by simp
qed

lemma rejecting_try_diverges:
  "session_try (test_env rejecting_provider) creds ''/config'' (world_with_qcm cache_Q_42) = None"
proof -
  let ?E = "test_env rejecting_provider"
  let ?w = "world_with_qcm cache_Q_42"
  let ?w1 = "snd (get_response ?E JNull login_url (Some [Txt alice_payload]) ?w)"
  have b: "http ?E (length (calls ?w)) = Body (JObj [(''code'', JInt 250), (''token'', JStr ''tok'')])"
    by (simp add: test_env_def rejecting_provider_def world_with_qcm_def login_250_def)
  have st: "session_try ?E creds ''/config'' ?w =
           (case resolve_challenge ?E creds ''/config'' login_250 ?w1 of
              None \<Rightarrow> None
            | Some (Inl e, w2) \<Rightarrow> Some (Inl e, w2)
            | Some (Inr login2, w2) \<Rightarrow> Some (connection_ok login2 w2))"
    unfolding login_250_def
    by (rule session_try_challenge[OF first_payload_creds b]) simp
  have "odd (length (calls ?w1))"
    by (simp add: get_response_calls world_with_qcm_def)
  then have lp: "qcm_loop ?E creds ''/config'' login_250 5 cache_Q_42 ?w1 = None"
    by (rule rejected_loop_diverges)
  have ld: "load_qcm ?w1 (qcm_path ''/config'') = Inr cache_Q_42"
    by (simp add: load_qcm_def get_response_files world_with_qcm_def)
  have "resolve_challenge ?E creds ''/config'' login_250 ?w1 = None"
    by (simp add: resolve_challenge_def ld lp)
  then show ?thesis
    by (simp add: st)
qed

subsection \<open>Runs of the whole handshake\<close>

lemma connection_ok_alice:
  "connection_ok login_200 w =
     (Inr alice_session, log INFO ''Connection OK - identifiant: [{%s}]'' [LJson (JStr ''alice'')] w)"
  by (simp add: connection_ok_def login_200_def alice_session_def account_field_def account0_def
        EDSession_init_def EDEleve_init_def ebind_def)

lemma ambiguous_pass:
  assumes "0 < length (calls w)"
  shows "qcm_iteration (test_env asking_provider) d p login_250 t cache_Q_ambiguous w =
           (Inr (Continue (t - 1) cache_Q_ambiguous),
            snd (get_qcm_connexion (test_env asking_provider) (JStr ''tok'') w))"
proof -
  have h: "http (test_env asking_provider) (length (calls w)) =
             Body (JObj [(''code'', JInt 200),
               (''data'', JObj [(''question'', JStr ''UQ==''),
                  (''propositions'', JArr [JStr ''NDE='', JStr ''NDI='', JStr ''NDM=''])])])"
    using assms by (simp add: test_env_def asking_provider_def challenge_Q_def)
  show ?thesis
    unfolding cache_Q_ambiguous_def
    by (rule iteration_ambiguous
              [OF _ h, where n = 3 and question = "''Q''" and qb = "''UQ==''"
                 and answers = "JArr [JStr ''41'', JStr ''42'', JStr ''43'']"])
       (simp_all add: login_250_def transport_ok_def lookup_or_def test_env_def
          b64_table_decode_def b64_pairs_def)
qed

lemma ambiguous_loop:
  "0 < length (calls w) \<Longrightarrow>
     \<exists>w'. qcm_loop (test_env asking_provider) d p login_250 (int n) cache_Q_ambiguous w =
             Some (Inr (0, None), w') \<and>
           length (calls w') = length (calls w) + n \<and> files w' = files w \<and> events w' = events w"
proof (induction n arbitrary: w)
  case 0
  then show ?case by (subst qcm_loop.simps) simp
next
  case (Suc n)
  let ?w1 = "snd (get_qcm_connexion (test_env asking_provider) (JStr ''tok'') w)"
  have "0 < length (calls ?w1)" by (simp add: get_qcm_connexion_world)
  from Suc.IH[OF this] obtain w' where
    w': "qcm_loop (test_env asking_provider) d p login_250 (int n) cache_Q_ambiguous ?w1 =
           Some (Inr (0, None), w')"
        "length (calls w') = length (calls ?w1) + n" "files w' = files ?w1" "events w' = events ?w1"
    by blast
  have "qcm_loop (test_env asking_provider) d p login_250 (int (Suc n)) cache_Q_ambiguous w =
          Some (Inr (0, None), w')"
    by (subst qcm_loop.simps) (simp add: ambiguous_pass[OF Suc.prems] w'(1))
  with w' show ?case by (auto simp: get_qcm_connexion_world)
qed

lemma ambiguous_run:
  "\<exists>w'. session_try (test_env asking_provider) creds ''/config'' (world_with_qcm cache_Q_ambiguous) =
           Some (Inl (QCMError qcm_message), w') \<and> length (calls w') = 6"
proof -
  let ?E = "test_env asking_provider"
  let ?w = "world_with_qcm cache_Q_ambiguous"
  let ?w1 = "snd (get_response ?E JNull login_url (Some [Txt alice_payload]) ?w)"
  have b: "http ?E (length (calls ?w)) = Body (JObj [(''code'', JInt 250), (''token'', JStr ''tok'')])"
    by (simp add: test_env_def asking_provider_def world_with_qcm_def login_250_def)
  have st: "session_try ?E creds ''/config'' ?w =
           (case resolve_challenge ?E creds ''/config'' login_250 ?w1 of
              None \<Rightarrow> None
            | Some (Inl e, w2) \<Rightarrow> Some (Inl e, w2)
            | Some (Inr login2, w2) \<Rightarrow> Some (connection_ok login2 w2))"
    unfolding login_250_def
    by (rule session_try_challenge[OF first_payload_creds b]) simp
  have l1: "length (calls ?w1) = 1"
    by (simp add: get_response_calls world_with_qcm_def)
  then have "0 < length (calls ?w1)" by simp
  from ambiguous_loop[OF this, of creds "''/config''" 5] obtain w' where
    w': "qcm_loop ?E creds ''/config'' login_250 5 cache_Q_ambiguous ?w1 = Some (Inr (0, None), w')"
        "length (calls w') = length (calls ?w1) + 5"
    by auto
  have ld: "load_qcm ?w1 (qcm_path ''/config'') = Inr cache_Q_ambiguous"
    by (simp add: load_qcm_def get_response_files world_with_qcm_def)
  have "resolve_challenge ?E creds ''/config'' login_250 ?w1 = Some (Inl (QCMError qcm_message), w')"
    by (simp add: resolve_challenge_def ld w'(1))
  with st w'(2) l1 show ?thesis by simp
qed

lemma first_request_fails:
  assumes "first_payload E d = Inr payload" and "fst (get_response E JNull login_url (Some [Txt payload]) w) = Inl err"
  shows "session_try E d p w = Some (Inl err, snd (get_response E JNull login_url (Some [Txt payload]) w))"
  using assms by (simp add: session_try_def case_prod_beta)

lemma direct_login_run:
  "get_ecoledirecte_session (test_env (scripted [Body login_200])) creds ''/config'' world0 =
     Some (Inr (Some alice_session),
           log INFO ''Connection OK - identifiant: [{%s}]'' [LJson (JStr ''alice'')]
             (snd (get_response (test_env (scripted [Body login_200])) JNull login_url
                     (Some [Txt alice_payload]) world0)))"
proof -
  let ?E = "test_env (scripted [Body login_200])"
  have "fst (get_response ?E JNull login_url (Some [Txt alice_payload]) world0) = Inr login_200"
    by (simp add: get_response_def test_env_def scripted_def world0_def log_def Let_def login_200_def)
  moreover have "getitem login_200 ''code'' = Inr (JInt 200)"
    by (simp add: login_200_def)
  ultimately have "session_try ?E creds ''/config'' world0 =
      Some (connection_ok login_200
              (snd (get_response ?E JNull login_url (Some [Txt alice_payload]) world0)))"
    by (simp add: session_try_def first_payload_creds case_prod_beta)
  then show ?thesis
    by (simp add: get_ecoledirecte_session_def connection_ok_alice)
qed

lemma network_failure_run:
  "get_ecoledirecte_session (test_env (scripted [])) creds ''/config'' world0 =
     Some (Inr None,
           log_exn CRITICAL ConnectionError
             (snd (get_response (test_env (scripted [])) JNull login_url
                     (Some [Txt alice_payload]) world0)))"
proof -
  have "session_try (test_env (scripted [])) creds ''/config'' world0 =
             Some (Inl ConnectionError,
                   snd (get_response (test_env (scripted [])) JNull login_url
                          (Some [Txt alice_payload]) world0))"
    by (rule first_request_fails[OF first_payload_creds])
       (simp add: get_response_def test_env_def scripted_def world0_def log_def Let_def)
  then show ?thesis by (simp add: get_ecoledirecte_session_def)
qed

lemma qcm_error_run:
  "\<exists>w'. get_ecoledirecte_session (test_env asking_provider) creds ''/config''
           (world_with_qcm cache_Q_ambiguous) = Some (Inl (QCMError qcm_message), w')"
  using ambiguous_run by (auto simp: get_ecoledirecte_session_def)

subsection \<open>Exceptions of the handshake\<close>

text \<open>
  No operation on decoded values raises \<open>QCMError\<close>, and a request that returns a body
  was answered: so every pass of the loop, and the loop itself, either ends with another
  exception or leaves every request answered.
\<close>

lemma never_qcm_Inr [simp]: "never_qcm (Inr x)"
  by (simp add: never_qcm_def)

lemma never_qcm_Inl [simp]: "never_qcm (Inl e) = (\<not> is_QCMError e)"
  by (simp add: never_qcm_def)

lemma never_qcm_ebind:
  "never_qcm m \<Longrightarrow> (\<And>x. never_qcm (f x)) \<Longrightarrow> never_qcm (ebind m f)"
  by (cases m) (simp_all add: ebind_def)

lemma never_qcm_getitem [simp]: "never_qcm (getitem v k)"
  by (cases v) (simp_all split: option.splits)

lemma never_qcm_getitem0 [simp]: "never_qcm (getitem0 v)"
  by (cases v rule: getitem0.cases) (simp_all split: list.splits)

lemma never_qcm_py_in [simp]: "never_qcm (py_in k v)"
  by (cases v) simp_all

lemma never_qcm_py_iter [simp]: "never_qcm (py_iter v)"
  by (cases v) simp_all

lemma never_qcm_py_len [simp]: "never_qcm (py_len v)"
  by (cases v) simp_all

lemma never_qcm_setitem [simp]: "never_qcm (setitem v k x)"
  by (cases v) simp_all

lemma never_qcm_str_add [simp]: "never_qcm (str_add a v)"
  by (cases v) simp_all

lemma never_qcm_cred [simp]: "never_qcm (cred d k)"
  by (simp add: cred_def split: option.splits)

lemma never_qcm_b64decode [simp]: "never_qcm (b64decode_utf8 E v)"
  by (simp add: b64decode_utf8_def split: json.splits option.splits)

lemma never_qcm_b64encode [simp]: "never_qcm (b64encode_utf8 E v)"
  by (simp add: b64encode_utf8_def split: json.splits)

lemma never_qcm_decode_all [simp]: "never_qcm (decode_all E xs)"
  by (induction xs) (simp_all add: never_qcm_ebind)

lemma never_qcm_enabled_modules [simp]: "never_qcm (enabled_modules xs)"
  by (induction xs) (auto intro!: never_qcm_ebind)

lemma never_qcm_EDEleve [simp]: "never_qcm (EDEleve_init d a b c e f g h)"
  unfolding EDEleve_init_def
  by (auto intro!: never_qcm_ebind)

lemma never_qcm_account_field [simp]: "never_qcm (account_field d k)"
  unfolding account_field_def account0_def
  by (auto intro!: never_qcm_ebind)

lemma never_qcm_linked_eleves [simp]: "never_qcm (linked_eleves d xs)"
  by (induction xs) (auto intro!: never_qcm_ebind)

lemma never_qcm_EDSession [simp]: "never_qcm (EDSession_init d)"
  unfolding EDSession_init_def
  by (auto intro!: never_qcm_ebind)

lemma never_qcm_first_payload [simp]: "never_qcm (first_payload E d)"
  unfolding first_payload_def
  by (auto intro!: never_qcm_ebind)

lemma never_qcm_second_payload [simp]: "never_qcm (second_payload E d cn cv)"
  unfolding second_payload_def
  by (auto intro!: never_qcm_ebind)

lemma never_qcmD: "never_qcm r \<Longrightarrow> r = Inl e \<Longrightarrow> \<not> is_QCMError e"
  by (simp add: never_qcm_def)

lemmas getitem_exn = never_qcmD[OF never_qcm_getitem]
lemmas py_in_exn = never_qcmD[OF never_qcm_py_in]

lemma never_qcm_get_response [simp]: "never_qcm (fst (get_response E tok u p w))"
  by (auto simp: get_response_def Let_def never_qcm_def
           split: http_outcome.splits sum.splits dest: getitem_exn py_in_exn)

lemma never_qcm_data_or_warn [simp]:
  "never_qcm (fst (data_or_warn fmt (get_response E tok u p w)))"
  using never_qcm_get_response[of E tok u p w]
  by (cases "get_response E tok u p w")
     (auto simp: data_or_warn_def never_qcm_def split: sum.splits dest: getitem_exn py_in_exn)

lemma never_qcm_connection_ok [simp]: "never_qcm (fst (connection_ok login w))"
  using never_qcm_account_field[of login "''identifiant''"] never_qcm_EDSession[of login]
  by (auto simp: connection_ok_def never_qcm_def split: sum.splits)


lemma never_qcm_load_qcm [simp]: "never_qcm (load_qcm w path)"
  by (simp add: load_qcm_def split: file_state.splits)

lemma answered_from_iff:
  "answered_from E k w \<longleftrightarrow> (\<forall>n. k \<le> n \<and> n < length (calls w) \<longrightarrow> \<not> failed_request (http E n))"
  by (auto simp: answered_from_def list_all_iff)

lemma answered_from_start [simp]: "answered_from E (length (calls w)) w"
  by (simp add: answered_from_def)

lemma answered_from_log [simp]: "answered_from E k (log l f as w) = answered_from E k w"
  by (simp add: answered_from_def log_def)

lemma answered_from_files [simp]: "answered_from E k (w\<lparr>files := fs\<rparr>) = answered_from E k w"
  by (simp add: answered_from_def)

lemma answered_from_events [simp]: "answered_from E k (w\<lparr>events := es\<rparr>) = answered_from E k w"
  by (simp add: answered_from_def)

lemma passes_from_Inl [simp]: "passes_from E k (Inl e, w) = (\<not> is_QCMError e)"
  by (simp add: passes_from_def)

lemma passes_from_Inr [simp]: "passes_from E k (Inr x, w) = answered_from E k w"
  by (simp add: passes_from_def)

lemma get_response_Inr:
  assumes "fst (get_response E tok u p w) = Inr j"
  shows "\<not> failed_request (http E (length (calls w)))"
  using assms
  by (auto simp: get_response_def Let_def log_def failed_request_def
           split: http_outcome.splits sum.splits if_splits)

lemma passes_from_get_response:
  assumes "answered_from E k w"
  shows "passes_from E k (get_response E tok u p w)"
proof (cases "fst (get_response E tok u p w)")
  case (Inl e)
  with never_qcm_get_response[of E tok u p w] show ?thesis
    by (simp add: passes_from_def)
next
  case (Inr j)
  have "answered_from E k (snd (get_response E tok u p w))"
    using assms get_response_Inr[OF Inr]
    by (auto simp: answered_from_iff get_response_calls less_Suc_eq)
  with Inr show ?thesis by (simp add: passes_from_def)
qed

lemma passes_from_data_or_warn:
  assumes "passes_from E k r"
  shows "passes_from E k (data_or_warn fmt r)"
  using assms
  by (cases r; cases "fst r")
     (auto simp: data_or_warn_def passes_from_def split: sum.splits dest: getitem_exn py_in_exn)

lemma passes_from_get_qcm:
  "answered_from E k w \<Longrightarrow> passes_from E k (get_qcm_connexion E tok w)"
  unfolding get_qcm_connexion_def
  by (intro passes_from_data_or_warn passes_from_get_response)

lemma passes_from_post_qcm:
  "answered_from E k w \<Longrightarrow> passes_from E k (post_qcm_connexion E tok r w)"
  unfolding post_qcm_connexion_def
  by (intro passes_from_data_or_warn passes_from_get_response)

lemma passes_from_connection_ok:
  "answered_from E k w \<Longrightarrow> passes_from E k (connection_ok login w)"
  using never_qcm_account_field[of login "''identifiant''"] never_qcm_EDSession[of login]
  by (auto simp: connection_ok_def never_qcm_def passes_from_def split: sum.splits)

lemma passes_from_case_sum:
  "never_qcm m \<Longrightarrow> (\<And>x. passes_from E k (f x)) \<Longrightarrow>
     passes_from E k (case m of Inl e \<Rightarrow> (Inl e, w) | Inr x \<Rightarrow> f x)"
  by (cases m) simp_all

lemma passes_from_case_prod:
  "passes_from E k r \<Longrightarrow> (\<And>x w1. answered_from E k w1 \<Longrightarrow> passes_from E k (f x w1)) \<Longrightarrow>
     passes_from E k (case r of (Inl e, w1) \<Rightarrow> (Inl e, w1) | (Inr x, w1) \<Rightarrow> f x w1)"
  by (cases r; cases "fst r") auto

lemma passes_from_if:
  "(c \<Longrightarrow> passes_from E k a) \<Longrightarrow> (\<not> c \<Longrightarrow> passes_from E k b) \<Longrightarrow>
     passes_from E k (if c then a else b)"
  by simp

lemma passes_from_case_write:
  "passes_from E k a \<Longrightarrow> passes_from E k b \<Longrightarrow> passes_from E k c \<Longrightarrow>
     passes_from E k (case wo of Written \<Rightarrow> a | OpenFails \<Rightarrow> b | DumpFails \<Rightarrow> c)"
  by (cases wo) simp_all

lemma passes_from_iteration:
  "answered_from E k w \<Longrightarrow> passes_from E k (qcm_iteration E d p login t q w)"
  unfolding qcm_iteration_def Let_def
  by (intro passes_from_case_sum passes_from_case_prod passes_from_if passes_from_case_write
        never_qcm_ebind passes_from_get_qcm passes_from_post_qcm)
     (simp_all split: prod.splits)


lemma passes_from_loop:
  assumes "qcm_loop E d p login t q w = Some r" and "answered_from E k w"
  shows "passes_from E k r"
proof -
  have "answered_from E k w \<longrightarrow> passes_from E k r"
  proof (rule qcm_loop.raw_induct
      [where P = "\<lambda>E d p login t q w r. answered_from E k w \<longrightarrow> passes_from E k r",
       OF _ assms(1)])
    fix f :: "env \<Rightarrow> (string \<rightharpoonup> string) \<Rightarrow> string \<Rightarrow> json \<Rightarrow> int \<Rightarrow> json \<Rightarrow> world
                 \<Rightarrow> ((exn + int \<times> (json \<times> json) option) \<times> world) option"
    fix E d p login t q w r
    assume IH: "\<And>E d p login t q w y. f E d p login t q w = Some y \<Longrightarrow>
                  answered_from E k w \<longrightarrow> passes_from E k y"
    assume step: "(if 0 < t
         then case qcm_iteration E d p login t q w of
              (Inl e, w') \<Rightarrow> Some (Inl e, w')
            | (Inr (Continue try_login' qcm_json'), w') \<Rightarrow> f E d p login try_login' qcm_json' w'
            | (Inr (Break cn cv), w') \<Rightarrow> Some (Inr (t, Some (cn, cv)), w')
         else Some (Inr (t, None), w)) = Some r"
    show "answered_from E k w \<longrightarrow> passes_from E k r"
    proof
      assume a: "answered_from E k w"
      have it: "passes_from E k (qcm_iteration E d p login t q w)"
        by (rule passes_from_iteration[OF a])
      show "passes_from E k r"
      proof (cases "0 < t")
        case False
        with step a show ?thesis by auto
      next
        case True
        obtain res w1 where eq: "qcm_iteration E d p login t q w = (res, w1)"
          by (cases "qcm_iteration E d p login t q w")
        show ?thesis
        proof (cases res)
          case (Inl e)
          with step True eq it show ?thesis by auto
        next
          case (Inr s)
          with it eq have a1: "answered_from E k w1" by simp
          show ?thesis
          proof (cases s)
            case (Continue t' q')
            with step True eq Inr have "f E d p login t' q' w1 = Some r" by simp
            from IH[OF this] a1 show ?thesis by simp
          next
            case (Break cn cv)
            with step True eq Inr a1 show ?thesis by auto
          qed
        qed
      qed
    qed
  qed
  with assms(2) show ?thesis by simp
qed

lemma outcome_from_passes: "passes_from E k r \<Longrightarrow> outcome_from E k r"
  by (auto simp: passes_from_def outcome_from_def split: sum.splits)

lemma resolve_challenge_outcome:
  assumes "resolve_challenge E d p login w = Some r" and "answered_from E k w"
  shows "outcome_from E k r"
proof (cases "load_qcm w (qcm_path p)")
  case (Inl e)
  with never_qcm_load_qcm[of w "qcm_path p"] assms(1) show ?thesis
    by (auto simp: resolve_challenge_def outcome_from_def)
next
  case (Inr q)
  show ?thesis
  proof (cases "qcm_loop E d p login 5 q w")
    case None
    with Inr assms(1) show ?thesis by (simp add: resolve_challenge_def)
  next
    case (Some y)
    obtain res w2 where y: "y = (res, w2)" by (cases y)
    have pl: "passes_from E k (res, w2)"
      using passes_from_loop[OF Some assms(2)] y by simp
    show ?thesis
    proof (cases res)
      case (Inl e)
      with Inr Some y pl assms(1) show ?thesis
        by (auto simp: resolve_challenge_def outcome_from_def)
    next
      case r: (Inr x)
      obtain t' cn_cv where x: "x = (t', cn_cv)" by (cases x)
      from pl r have a2: "answered_from E k w2" by simp
      show ?thesis
      proof (cases "t' = 0")
        case True
        with Inr Some y r x a2 assms(1) show ?thesis
          by (auto simp: resolve_challenge_def outcome_from_def)
      next
        case False
        show ?thesis
        proof (cases cn_cv)
          case None
          with False Inr Some y r x assms(1) show ?thesis
            by (auto simp: resolve_challenge_def outcome_from_def)
        next
          case c: (Some cc)
          obtain cn cv where cc: "cc = (cn, cv)" by (cases cc)
          let ?w3 = "log DEBUG ''cn: [%s] - cv: [%s]'' [LJson cn, LJson cv] w2"
          have a3: "answered_from E k ?w3" using a2 by simp
          show ?thesis
          proof (cases "second_payload E d cn cv")
            case (Inl e)
            with never_qcm_second_payload[of E d cn cv] False Inr Some y r x c cc assms(1)
            show ?thesis
              by (auto simp: resolve_challenge_def outcome_from_def Let_def)
          next
            case pay: (Inr payload)
            have "r = get_response E JNull login_url (Some [Txt payload]) ?w3"
              using False Inr Some y r x c cc pay assms(1)
              by (simp add: resolve_challenge_def Let_def)
            with passes_from_get_response[OF a3] show ?thesis
              by (simp add: outcome_from_passes)
          qed
        qed
      qed
    qed
  qed
qed

lemma session_try_outcome:
  assumes "session_try E d p w = Some r"
  shows "outcome_from E (length (calls w)) r"
proof (cases "first_payload E d")
  case (Inl e)
  with never_qcm_first_payload[of E d] assms show ?thesis
    by (auto simp: session_try_def outcome_from_def)
next
  case (Inr payload)
  let ?k = "length (calls w)"
  obtain res w1 where g: "get_response E JNull login_url (Some [Txt payload]) w = (res, w1)"
    by (cases "get_response E JNull login_url (Some [Txt payload]) w")
  have pg: "passes_from E ?k (res, w1)"
    using passes_from_get_response[of E ?k w JNull login_url "Some [Txt payload]"] g by simp
  show ?thesis
  proof (cases res)
    case (Inl e)
    with Inr g pg assms show ?thesis
      by (auto simp: session_try_def outcome_from_def)
  next
    case l: (Inr login)
    with pg have a1: "answered_from E ?k w1" by simp
    show ?thesis
    proof (cases "getitem login ''code''")
      case (Inl e)
      with never_qcm_getitem[of login "''code''"] Inr g l assms show ?thesis
        by (auto simp: session_try_def outcome_from_def)
    next
      case c: (Inr code)
      show ?thesis
      proof (cases "code = JInt 250")
        case False
        with Inr g l c assms have "r = connection_ok login w1"
          by (simp add: session_try_def)
        with passes_from_connection_ok[OF a1] show ?thesis
          by (simp add: outcome_from_passes)
      next
        case True
        show ?thesis
        proof (cases "resolve_challenge E d p login w1")
          case None
          with True Inr g l c assms show ?thesis by (simp add: session_try_def)
        next
          case (Some y)
          obtain res2 w2 where y: "y = (res2, w2)" by (cases y)
          have o: "outcome_from E ?k (res2, w2)"
            using resolve_challenge_outcome[OF Some a1] y by simp
          show ?thesis
          proof (cases res2)
            case (Inl e)
            with True Inr g l c Some y o assms show ?thesis
              by (auto simp: session_try_def outcome_from_def)
          next
            case l2: (Inr login2)
            with o have a2: "answered_from E ?k w2" by (simp add: outcome_from_def)
            from True Inr g l c Some y l2 assms have "r = connection_ok login2 w2"
              by (simp add: session_try_def)
            with passes_from_connection_ok[OF a2] show ?thesis
              by (simp add: outcome_from_passes)
          qed
        qed
      qed
    qed
  qed
qed

text \<open>
  C2. Whatever exception the body of the handshake raises, \<open>get_ecoledirecte_session\<close>
  appends it to the log. An exception other than \<open>QCMError\<close> is logged at the level
  \<open>CRITICAL\<close> and the result is \<open>None\<close>; this is what happens whenever a request of
  the handshake, the first login or a later one, meets a network failure, an answer that
  is no JSON, or an answer that is no object with the code 200 or 250. \<open>QCMError\<close> is
  only raised with the message of the exhausted retries; it is logged at the level
  \<open>WARNING\<close> and raised again unchanged. A session that the body returns is returned
  as it is. The witness has a network failure, an answer that is no JSON and an answer
  without \<open>code\<close> at the first login, a network failure at the first request of the
  challenge, and a run that uses up its five retries.
\<close>

theorem session_exception_handling:
  assumes "session_try E d p w = Some (r, w')"
  shows "(\<forall>err. r = Inl err \<longrightarrow>
            (if is_QCMError err
             then err = QCMError qcm_message \<and>
                  get_ecoledirecte_session E d p w =
                    Some (Inl err,
                          w'\<lparr>logs := logs w' @
                                [\<lparr>log_level = WARNING, log_msg = LExn err, log_args = []\<rparr>]\<rparr>)
             else get_ecoledirecte_session E d p w =
                    Some (Inr None,
                          w'\<lparr>logs := logs w' @
                                [\<lparr>log_level = CRITICAL, log_msg = LExn err, log_args = []\<rparr>]\<rparr>))) \<and>
         ((\<exists>n. length (calls w) \<le> n \<and> n < length (calls w') \<and> failed_request (http E n)) \<longrightarrow>
            (\<exists>err. r = Inl err \<and> \<not> is_QCMError err \<and>
                   get_ecoledirecte_session E d p w =
                     Some (Inr None,
                           w'\<lparr>logs := logs w' @
                                 [\<lparr>log_level = CRITICAL, log_msg = LExn err, log_args = []\<rparr>]\<rparr>))) \<and>
         (\<forall>session. r = Inr session \<longrightarrow>
            get_ecoledirecte_session E d p w = Some (Inr (Some session), w'))"
proof -
  have o: "outcome_from E (length (calls w)) (r, w')"
    by (rule session_try_outcome[OF assms])
  have 1: "\<And>err. r = Inl err \<Longrightarrow> is_QCMError err \<Longrightarrow> err = QCMError qcm_message"
    using o by (simp add: outcome_from_def)
  have 2: "(\<exists>n. length (calls w) \<le> n \<and> n < length (calls w') \<and> failed_request (http E n)) \<Longrightarrow>
             \<exists>err. r = Inl err \<and> \<not> is_QCMError err"
    using o by (cases r) (auto simp: outcome_from_def answered_from_iff)
  have 3: "\<And>err. r = Inl err \<Longrightarrow> \<not> is_QCMError err \<Longrightarrow>
             get_ecoledirecte_session E d p w =
               Some (Inr None,
                     w'\<lparr>logs := logs w' @
                           [\<lparr>log_level = CRITICAL, log_msg = LExn err, log_args = []\<rparr>]\<rparr>)"
    using assms by (simp add: get_ecoledirecte_session_def log_exn_def)
  have 4: "\<And>err. r = Inl err \<Longrightarrow> is_QCMError err \<Longrightarrow>
             get_ecoledirecte_session E d p w =
               Some (Inl err,
                     w'\<lparr>logs := logs w' @
                           [\<lparr>log_level = WARNING, log_msg = LExn err, log_args = []\<rparr>]\<rparr>)"
    using assms by (simp add: get_ecoledirecte_session_def log_exn_def)
  have 5: "\<And>session. r = Inr session \<Longrightarrow>
             get_ecoledirecte_session E d p w = Some (Inr (Some session), w')"
    using assms by (simp add: get_ecoledirecte_session_def)
  show ?thesis
  proof (intro conjI allI impI)
    fix err
    assume "r = Inl err"
    then show "if is_QCMError err
             then err = QCMError qcm_message \<and>
                  get_ecoledirecte_session E d p w =
                    Some (Inl err,
                          w'\<lparr>logs := logs w' @
                                [\<lparr>log_level = WARNING, log_msg = LExn err, log_args = []\<rparr>]\<rparr>)
             else get_ecoledirecte_session E d p w =
                    Some (Inr None,
                          w'\<lparr>logs := logs w' @
                                [\<lparr>log_level = CRITICAL, log_msg = LExn err, log_args = []\<rparr>]\<rparr>)"
      using 1 3 4 by simp
  next
    assume "\<exists>n. length (calls w) \<le> n \<and> n < length (calls w') \<and> failed_request (http E n)"
    from 2[OF this] obtain err where "r = Inl err" "\<not> is_QCMError err" by blast
    with 3 show "\<exists>err. r = Inl err \<and> \<not> is_QCMError err \<and>
                   get_ecoledirecte_session E d p w =
                     Some (Inr None,
                           w'\<lparr>logs := logs w' @
                                 [\<lparr>log_level = CRITICAL, log_msg = LExn err, log_args = []\<rparr>]\<rparr>)"
      by blast
  next
    fix session
    assume "r = Inr session"
    then show "get_ecoledirecte_session E d p w = Some (Inr (Some session), w')"
      by (rule 5)
  qed
qed


lemma first_request_run:
  assumes "first_payload E d = Inr payload"
  shows "session_try E d p w =
           (case get_response E JNull login_url (Some [Txt payload]) w of
              (Inl e, w1) \<Rightarrow> Some (Inl e, w1)
            | (Inr login, w1) \<Rightarrow>
                (case getitem login ''code'' of
                   Inl e \<Rightarrow> Some (Inl e, w1)
                 | Inr code \<Rightarrow>
                     if code = JInt 250 then
                       (case resolve_challenge E d p login w1 of
                          None \<Rightarrow> None
                        | Some (Inl e, w2) \<Rightarrow> Some (Inl e, w2)
                        | Some (Inr login2, w2) \<Rightarrow> Some (connection_ok login2 w2))
                     else Some (connection_ok login w1)))"
  using assms by (simp add: session_try_def)

lemma failing_challenge_run:
  "\<exists>w'. session_try (test_env (scripted [Body login_250])) creds ''/config''
           (world_with_qcm cache_Q_42) = Some (Inl ConnectionError, w') \<and>
         length (calls w') = 2"
proof -
  let ?E = "test_env (scripted [Body login_250])"
  let ?w = "world_with_qcm cache_Q_42"
  let ?w1 = "snd (get_response ?E JNull login_url (Some [Txt alice_payload]) ?w)"
  let ?w2 = "snd (get_qcm_connexion ?E (JStr ''tok'') ?w1)"
  have b: "http ?E (length (calls ?w)) = Body (JObj [(''code'', JInt 250), (''token'', JStr ''tok'')])"
    by (simp add: test_env_def scripted_def world_with_qcm_def login_250_def)
  have st: "session_try ?E creds ''/config'' ?w =
           (case resolve_challenge ?E creds ''/config'' login_250 ?w1 of
              None \<Rightarrow> None
            | Some (Inl e, w2) \<Rightarrow> Some (Inl e, w2)
            | Some (Inr login2, w2) \<Rightarrow> Some (connection_ok login2 w2))"
    using session_try_challenge[OF first_payload_creds b, of "''/config''"]
    by (simp add: login_250_def)
  have l1: "length (calls ?w1) = 1"
    by (simp add: get_response_calls world_with_qcm_def)
  have h: "http ?E (length (calls ?w1)) = NetFail"
    unfolding l1 by (simp add: test_env_def scripted_def)
  have "fst (get_response ?E (JStr ''tok'')
               [Txt (APIURL @ ''/connexion/doubleauth.awp?verbe=get&v='' @ APIVERSION)] None ?w1) =
          Inl ConnectionError"
    using h by (simp add: get_response_def Let_def log_def)
  then have q: "fst (get_qcm_connexion ?E (JStr ''tok'') ?w1) = Inl ConnectionError"
    by (simp add: get_qcm_connexion_def data_or_warn_def case_prod_beta)
  have it: "qcm_iteration ?E creds ''/config'' login_250 5 cache_Q_42 ?w1 = (Inl ConnectionError, ?w2)"
    using q by (simp add: qcm_iteration_def login_250_def case_prod_beta)
  have lp: "qcm_loop ?E creds ''/config'' login_250 5 cache_Q_42 ?w1 = Some (Inl ConnectionError, ?w2)"
    by (subst qcm_loop.simps) (simp add: it)
  have ld: "load_qcm ?w1 (qcm_path ''/config'') = Inr cache_Q_42"
    by (simp add: load_qcm_def get_response_files world_with_qcm_def)
  have "resolve_challenge ?E creds ''/config'' login_250 ?w1 = Some (Inl ConnectionError, ?w2)"
    by (simp add: resolve_challenge_def ld lp)
  then have "session_try ?E creds ''/config'' ?w = Some (Inl ConnectionError, ?w2)"
    by (simp add: st)
  moreover have "length (calls ?w2) = 2"
    by (simp add: get_qcm_connexion_world l1)
  ultimately show ?thesis by blast
qed

theorem session_exception_handling_witness:
  "get_ecoledirecte_session (test_env (scripted [])) creds ''/config'' world0 =
     Some (Inr None,
           \<lparr>calls = [\<lparr>url = login_url, data = [Txt alice_payload], headers = get_headers JNull,
                      timeout = 120\<rparr>],
            files = no_file, events = [],
            logs = [\<lparr>log_level = DEBUG, log_msg = LJson (JStr ''URL: [%s] - Payload: [%s]''),
                     log_args = [LText login_url, LText [Txt alice_payload]]\<rparr>,
                    \<lparr>log_level = CRITICAL, log_msg = LExn ConnectionError, log_args = []\<rparr>]\<rparr>) \<and>
   get_ecoledirecte_session (test_env (scripted [NotJson ''<html>''])) creds ''/config'' world0 =
     Some (Inr None,
           \<lparr>calls = [\<lparr>url = login_url, data = [Txt alice_payload], headers = get_headers JNull,
                      timeout = 120\<rparr>],
            files = no_file, events = [],
            logs = [\<lparr>log_level = DEBUG, log_msg = LJson (JStr ''URL: [%s] - Payload: [%s]''),
                     log_args = [LText login_url, LText [Txt alice_payload]]\<rparr>,
                    \<lparr>log_level = CRITICAL,
                     log_msg = LExn (RequestError ([Txt ''Error with URL:[''] @ login_url @
                                 [Txt '']: '', Bytes ''<html>''])),
                     log_args = []\<rparr>]\<rparr>) \<and>
   get_ecoledirecte_session (test_env (scripted [Body (JObj [])])) creds ''/config'' world0 =
     Some (Inr None,
           \<lparr>calls = [\<lparr>url = login_url, data = [Txt alice_payload], headers = get_headers JNull,
                      timeout = 120\<rparr>],
            files = no_file, events = [],
            logs = [\<lparr>log_level = DEBUG, log_msg = LJson (JStr ''URL: [%s] - Payload: [%s]''),
                     log_args = [LText login_url, LText [Txt alice_payload]]\<rparr>,
                    \<lparr>log_level = CRITICAL,
                     log_msg = LExn (RequestError ([Txt ''Error with URL:[''] @ login_url @
                                 [Txt '']: json:['', Fmt (JObj []), Txt '']''])),
                     log_args = []\<rparr>]\<rparr>) \<and>
   (\<exists>w'. get_ecoledirecte_session (test_env (scripted [Body login_250])) creds ''/config''
            (world_with_qcm cache_Q_42) =
          Some (Inr None,
                w'\<lparr>logs := logs w' @
                      [\<lparr>log_level = CRITICAL, log_msg = LExn ConnectionError, log_args = []\<rparr>]\<rparr>) \<and>
          length (calls w') = 2) \<and>
   (\<exists>w'. get_ecoledirecte_session (test_env asking_provider) creds ''/config''
            (world_with_qcm cache_Q_ambiguous) =
          Some (Inl (QCMError qcm_message),
                w'\<lparr>logs := logs w' @
                      [\<lparr>log_level = WARNING, log_msg = LExn (QCMError qcm_message),
                        log_args = []\<rparr>]\<rparr>) \<and>
          length (calls w') = 6)"
proof -
  let ?E1 = "test_env (scripted [])"
  let ?E2 = "test_env (scripted [NotJson ''<html>''])"
  let ?E3 = "test_env (scripted [Body (JObj [])])"
  let ?E4 = "test_env (scripted [Body login_250])"
  let ?W = "\<lparr>calls = [\<lparr>url = login_url, data = [Txt alice_payload], headers = get_headers JNull,
                      timeout = 120\<rparr>],
            files = no_file, events = [],
            logs = [\<lparr>log_level = DEBUG, log_msg = LJson (JStr ''URL: [%s] - Payload: [%s]''),
                     log_args = [LText login_url, LText [Txt alice_payload]]\<rparr>]\<rparr>"
  have 1: "session_try ?E1 creds ''/config'' world0 = Some (Inl ConnectionError, ?W)"
    by (simp add: first_request_run[OF first_payload_creds])
       (simp add: get_response_def test_env_def scripted_def world0_def log_def Let_def)
  have 2: "session_try ?E2 creds ''/config'' world0 =
             Some (Inl (RequestError ([Txt ''Error with URL:[''] @ login_url @
                          [Txt '']: '', Bytes ''<html>''])), ?W)"
    by (simp add: first_request_run[OF first_payload_creds])
       (simp add: get_response_def test_env_def scripted_def world0_def log_def Let_def)
  have 3: "session_try ?E3 creds ''/config'' world0 =
             Some (Inl (RequestError ([Txt ''Error with URL:[''] @ login_url @
                          [Txt '']: json:['', Fmt (JObj []), Txt '']''])), ?W)"
    by (simp add: first_request_run[OF first_payload_creds])
       (simp add: get_response_def test_env_def scripted_def world0_def log_def Let_def)
  from failing_challenge_run obtain w4 where
    4: "session_try ?E4 creds ''/config'' (world_with_qcm cache_Q_42) =
          Some (Inl ConnectionError, w4)" and c4: "length (calls w4) = 2"
    by blast
  have f4: "\<exists>n. length (calls (world_with_qcm cache_Q_42)) \<le> n \<and> n < length (calls w4) \<and>
              failed_request (http ?E4 n)"
    unfolding c4
    by (rule exI[of _ 1]) (simp add: world_with_qcm_def test_env_def scripted_def failed_request_def)
  from ambiguous_run obtain w5 where
    5: "session_try (test_env asking_provider) creds ''/config'' (world_with_qcm cache_Q_ambiguous) =
          Some (Inl (QCMError qcm_message), w5)" and c5: "length (calls w5) = 6"
    by blast
  have a: "get_ecoledirecte_session ?E1 creds ''/config'' world0 =
             Some (Inr None, ?W\<lparr>logs := logs ?W @
                [\<lparr>log_level = CRITICAL, log_msg = LExn ConnectionError, log_args = []\<rparr>]\<rparr>)"
    using session_exception_handling[OF 1] by simp
  have b: "get_ecoledirecte_session ?E2 creds ''/config'' world0 =
             Some (Inr None, ?W\<lparr>logs := logs ?W @
                [\<lparr>log_level = CRITICAL,
                  log_msg = LExn (RequestError ([Txt ''Error with URL:[''] @ login_url @
                                 [Txt '']: '', Bytes ''<html>''])), log_args = []\<rparr>]\<rparr>)"
    using session_exception_handling[OF 2] by simp
  have c: "get_ecoledirecte_session ?E3 creds ''/config'' world0 =
             Some (Inr None, ?W\<lparr>logs := logs ?W @
                [\<lparr>log_level = CRITICAL,
                  log_msg = LExn (RequestError ([Txt ''Error with URL:[''] @ login_url @
                                 [Txt '']: json:['', Fmt (JObj []), Txt '']''])),
                  log_args = []\<rparr>]\<rparr>)"
    using session_exception_handling[OF 3] by simp
  have d: "get_ecoledirecte_session ?E4 creds ''/config'' (world_with_qcm cache_Q_42) =
             Some (Inr None, w4\<lparr>logs := logs w4 @
                [\<lparr>log_level = CRITICAL, log_msg = LExn ConnectionError, log_args = []\<rparr>]\<rparr>)"
    using session_exception_handling[OF 4] f4 by simp
  have e: "get_ecoledirecte_session (test_env asking_provider) creds ''/config''
             (world_with_qcm cache_Q_ambiguous) =
             Some (Inl (QCMError qcm_message), w5\<lparr>logs := logs w5 @
                [\<lparr>log_level = WARNING, log_msg = LExn (QCMError qcm_message), log_args = []\<rparr>]\<rparr>)"
    using session_exception_handling[OF 5] by simp
  show ?thesis
    using a b c d e c4 c5 by auto
qed

text \<open>
  C10. \<open>check_ecoledirecte_session\<close> returns \<open>True\<close> whenever the handshake raises, the
  only exception that leaves the handshake being \<open>QCMError\<close>; otherwise it returns \<open>True\<close>
  exactly when the handshake returned a session.
\<close>

theorem check_session_result:
  "(get_ecoledirecte_session E d p w = Some (Inl err, w') \<longrightarrow>
      is_QCMError err \<and> check_ecoledirecte_session E d p w = Some (Inr True, w')) \<and>
   (get_ecoledirecte_session E d p w = Some (Inr session, w') \<longrightarrow>
      check_ecoledirecte_session E d p w = Some (Inr (session \<noteq> None), w')) \<and>
   (get_ecoledirecte_session E d p w = None \<longrightarrow> check_ecoledirecte_session E d p w = None)"
  by (auto simp: check_ecoledirecte_session_def get_ecoledirecte_session_def
           split: option.splits prod.splits sum.splits if_splits)

theorem check_session_result_witness:
  "(\<exists>w'. check_ecoledirecte_session (test_env asking_provider) creds ''/config''
            (world_with_qcm cache_Q_ambiguous) = Some (Inr True, w')) \<and>
   (\<exists>w'. check_ecoledirecte_session (test_env (scripted [Body login_200])) creds ''/config''
            world0 = Some (Inr True, w')) \<and>
   (\<exists>w'. check_ecoledirecte_session (test_env (scripted [])) creds ''/config''
            world0 = Some (Inr False, w')) \<and>
   check_ecoledirecte_session (test_env rejecting_provider) creds ''/config''
     (world_with_qcm cache_Q_42) = None"
proof -
  have 2: "get_ecoledirecte_session (test_env rejecting_provider) creds ''/config''
             (world_with_qcm cache_Q_42) = None"
    by (simp add: get_ecoledirecte_session_def rejecting_try_diverges)
  from qcm_error_run obtain w1 where
    1: "get_ecoledirecte_session (test_env asking_provider) creds ''/config''
          (world_with_qcm cache_Q_ambiguous) = Some (Inl (QCMError qcm_message), w1)"
    by blast
  show ?thesis
    using check_session_result
            [where E = "test_env asking_provider" and d = creds and p = "''/config''"
               and w = "world_with_qcm cache_Q_ambiguous" and err = "QCMError qcm_message"
               and w' = w1]
          check_session_result
            [where E = "test_env (scripted [Body login_200])" and d = creds and p = "''/config''"
               and w = world0 and session = "Some alice_session"
               and w' = "log INFO ''Connection OK - identifiant: [{%s}]'' [LJson (JStr ''alice'')]
                   (snd (get_response (test_env (scripted [Body login_200])) JNull login_url
                           (Some [Txt alice_payload]) world0))"]
          check_session_result
            [where E = "test_env (scripted [])" and d = creds and p = "''/config''"
               and w = world0 and session = None
               and w' = "log_exn CRITICAL ConnectionError
                   (snd (get_response (test_env (scripted [])) JNull login_url
                           (Some [Txt alice_payload]) world0))"]
          check_session_result
            [where E = "test_env rejecting_provider" and d = creds and p = "''/config''"
               and w = "world_with_qcm cache_Q_42"]
          1 2 direct_login_run network_failure_run
    by simp
qed

subsection \<open>The number of passes is not bounded\<close>

text \<open>
  A pass whose cached answer is accepted ends the loop; a pass whose cached answer is
  turned down starts the next pass with the same retry counter.
\<close>

lemma loop_break_on_accept:
  assumes "0 < t"
    and "getitem login ''token'' = Inr tok"
    and "http E (length (calls w)) = Body (JObj kv1)" and "transport_ok kv1 tok"
    and "getitem (lookup_or kv1 ''data'' JNull) ''question'' = Inr (JStr qb)"
    and "b64decode E qb = Some question"
    and "map_of cache question = Some (JArr [JStr answer])"
    and "http E (Suc (length (calls w))) = Body (JObj kv2)" and "transport_ok kv2 tok"
    and "truthy (lookup_or kv2 ''data'' JNull)"
    and "getitem (lookup_or kv2 ''data'' JNull) ''cn'' = Inr cn"
    and "getitem (lookup_or kv2 ''data'' JNull) ''cv'' = Inr cv"
  shows "qcm_loop E d p login t (JObj cache) w =
           Some (Inr (t, Some (cn, cv)),
                 snd (post_qcm_connexion E tok (b64encode E answer)
                        (snd (get_qcm_connexion E tok w))))"
proof -
  have "qcm_iteration E d p login t (JObj cache) w =
          (Inr (Break cn cv),
           snd (post_qcm_connexion E tok (b64encode E answer) (snd (get_qcm_connexion E tok w))))"
    using assms(10-12)
    by (simp add: iteration_answered[OF assms(2-9)] Let_def ebind_def)
  then show ?thesis
    using assms(1) by (subst qcm_loop.simps) simp
qed

lemma loop_continue_on_reject:
  assumes "0 < t"
    and "getitem login ''token'' = Inr tok"
    and "http E (length (calls w)) = Body (JObj kv1)" and "transport_ok kv1 tok"
    and "getitem (lookup_or kv1 ''data'' JNull) ''question'' = Inr (JStr qb)"
    and "b64decode E qb = Some question"
    and "map_of cache question = Some (JArr [JStr answer])"
    and "http E (Suc (length (calls w))) = Body (JObj kv2)" and "transport_ok kv2 tok"
    and "\<not> truthy (lookup_or kv2 ''data'' JNull)"
  shows "qcm_loop E d p login t (JObj cache) w =
           qcm_loop E d p login t (JObj cache)
             (log WARNING qcm_rate [LJson (JStr question), LJson (lookup_or kv2 ''data'' JNull)]
                (snd (post_qcm_connexion E tok (b64encode E answer)
                        (snd (get_qcm_connexion E tok w)))))"
proof -
  have "qcm_iteration E d p login t (JObj cache) w =
          (Inr (Continue t (JObj cache)),
           log WARNING qcm_rate [LJson (JStr question), LJson (lookup_or kv2 ''data'' JNull)]
             (snd (post_qcm_connexion E tok (b64encode E answer)
                     (snd (get_qcm_connexion E tok w)))))"
    using assms(10)
    by (simp add: iteration_answered[OF assms(2-9)] Let_def)
  then show ?thesis
    using assms(1) by (subst qcm_loop.simps) simp
qed

text \<open>
  For every \<open>k\<close> there is a run of the handshake with \<open>k + 1\<close> passes through the loop:
  the provider turns the cached answer down \<open>k\<close> times and accepts it then. The run sends
  \<open>2 * k + 4\<close> requests and returns a session.
\<close>

lemma patient_loop:
  "length (calls w) = 2 * j + 1 \<Longrightarrow> j + m = k \<Longrightarrow>
     \<exists>w'. qcm_loop (test_env (patient_provider k)) d p login_250 5 cache_Q_42 w =
             Some (Inr (5, Some (JStr ''Y24='', JStr ''Y3Y='')), w') \<and>
           length (calls w') = 2 * k + 3 \<and> files w' = files w \<and> events w' = events w"
proof (induction m arbitrary: w j)
  case 0
  let ?E = "test_env (patient_provider k)"
  have hE: "http ?E n = patient_provider k n" for n by (simp add: test_env_def)
  have r1: "http ?E (length (calls w)) =
              Body (JObj [(''code'', JInt 200),
                (''data'', JObj [(''question'', JStr ''UQ==''),
                   (''propositions'', JArr [JStr ''NDE='', JStr ''NDI='', JStr ''NDM=''])])])"
    unfolding hE using 0 by (simp add: patient_provider_def challenge_Q_def)
  have r2: "http ?E (Suc (length (calls w))) =
              Body (JObj [(''code'', JInt 200),
                          (''data'', JObj [(''cn'', JStr ''Y24=''), (''cv'', JStr ''Y3Y='')])])"
    unfolding hE using 0 by (simp add: patient_provider_def answer_accepted_def)
  have "qcm_loop ?E d p login_250 5 (JObj [(''Q'', JArr [JStr ''42''])]) w =
          Some (Inr (5, Some (JStr ''Y24='', JStr ''Y3Y='')),
                snd (post_qcm_connexion ?E (JStr ''tok'') (b64encode ?E ''42'')
                       (snd (get_qcm_connexion ?E (JStr ''tok'') w))))"
    by (rule loop_break_on_accept[OF _ _ r1 _ _ _ _ r2, where question = "''Q''" and qb = "''UQ==''"])
       (simp_all add: login_250_def transport_ok_def lookup_or_def test_env_def
          b64_table_decode_def b64_pairs_def)
  then show ?case
    using 0 by (simp add: cache_Q_42_def post_qcm_connexion_world get_qcm_connexion_world)
next
  case (Suc m)
  let ?E = "test_env (patient_provider k)"
  let ?w2 = "log WARNING qcm_rate [LJson (JStr ''Q''),
                 LJson (lookup_or [(''code'', JInt 200), (''data'', JObj [])] ''data'' JNull)]
               (snd (post_qcm_connexion ?E (JStr ''tok'') (b64encode ?E ''42'')
                       (snd (get_qcm_connexion ?E (JStr ''tok'') w))))"
  have hE: "http ?E n = patient_provider k n" for n by (simp add: test_env_def)
  have r1: "http ?E (length (calls w)) =
              Body (JObj [(''code'', JInt 200),
                (''data'', JObj [(''question'', JStr ''UQ==''),
                   (''propositions'', JArr [JStr ''NDE='', JStr ''NDI='', JStr ''NDM=''])])])"
    unfolding hE using Suc.prems by (auto simp: patient_provider_def challenge_Q_def)
  have r2: "http ?E (Suc (length (calls w))) = Body (JObj [(''code'', JInt 200), (''data'', JObj [])])"
    unfolding hE using Suc.prems by (auto simp: patient_provider_def answer_rejected_def)
  have step: "qcm_loop ?E d p login_250 5 (JObj [(''Q'', JArr [JStr ''42''])]) w =
                qcm_loop ?E d p login_250 5 (JObj [(''Q'', JArr [JStr ''42''])]) ?w2"
    by (rule loop_continue_on_reject[OF _ _ r1 _ _ _ _ r2, where question = "''Q''" and qb = "''UQ==''"])
       (simp_all add: login_250_def transport_ok_def lookup_or_def test_env_def
          b64_table_decode_def b64_pairs_def)
  have len: "length (calls ?w2) = 2 * Suc j + 1"
    using Suc.prems(1) by (simp add: log_def post_qcm_connexion_world get_qcm_connexion_world)
  have "Suc j + m = k" using Suc.prems(2) by simp
  from Suc.IH[OF len this] obtain w' where
    w': "qcm_loop ?E d p login_250 5 cache_Q_42 ?w2 =
           Some (Inr (5, Some (JStr ''Y24='', JStr ''Y3Y='')), w')"
        "length (calls w') = 2 * k + 3" "files w' = files ?w2" "events w' = events ?w2"
    by blast
  have "qcm_loop ?E d p login_250 5 cache_Q_42 w =
          Some (Inr (5, Some (JStr ''Y24='', JStr ''Y3Y='')), w')"
    using step w'(1) by (simp add: cache_Q_42_def)
  moreover have "files ?w2 = files w" "events ?w2 = events w"
    by (simp_all add: log_def post_qcm_connexion_world get_qcm_connexion_world)
  ultimately show ?case using w' by auto
qed

lemma patient_run:
  "\<exists>w'. get_ecoledirecte_session (test_env (patient_provider k)) creds ''/config''
           (world_with_qcm cache_Q_42) = Some (Inr (Some alice_session), w') \<and>
        length (calls w') = 2 * k + 4 \<and> files w' = files (world_with_qcm cache_Q_42) \<and>
        events w' = []"
proof -
  let ?E = "test_env (patient_provider k)"
  let ?w = "world_with_qcm cache_Q_42"
  let ?w1 = "snd (get_response ?E JNull login_url (Some [Txt alice_payload]) ?w)"
  have hE: "http ?E n = patient_provider k n" for n
    by (simp add: test_env_def)
  have b: "http ?E (length (calls ?w)) = Body (JObj [(''code'', JInt 250), (''token'', JStr ''tok'')])"
    by (simp add: test_env_def patient_provider_def world_with_qcm_def login_250_def)
  have st: "session_try ?E creds ''/config'' ?w =
           (case resolve_challenge ?E creds ''/config'' login_250 ?w1 of
              None \<Rightarrow> None
            | Some (Inl e, w2) \<Rightarrow> Some (Inl e, w2)
            | Some (Inr login2, w2) \<Rightarrow> Some (connection_ok login2 w2))"
    unfolding login_250_def
    by (rule session_try_challenge[OF first_payload_creds b]) simp
  have l1: "length (calls ?w1) = 2 * 0 + 1"
    by (simp add: get_response_calls world_with_qcm_def)
  have ld: "load_qcm ?w1 (qcm_path ''/config'') = Inr cache_Q_42"
    by (simp add: load_qcm_def get_response_files world_with_qcm_def)
  from patient_loop[OF l1, of k k creds "''/config''"] obtain w2 where
    lp: "qcm_loop ?E creds ''/config'' login_250 5 cache_Q_42 ?w1 =
           Some (Inr (5, Some (JStr ''Y24='', JStr ''Y3Y='')), w2)"
    and w2: "length (calls w2) = 2 * k + 3" "files w2 = files ?w1" "events w2 = events ?w1"
    by auto
  let ?w3 = "log DEBUG ''cn: [%s] - cv: [%s]'' [LJson (JStr ''Y24=''), LJson (JStr ''Y3Y='')] w2"
  define payload2 where
    \<open>payload2 = ''data={"identifiant":"alice", "motdepasse":"secret", "isRelogin": false, ''
                   @ ''"fa": [{"cn": "Y24=", "cv": "Y3Y="}]}''\<close>
  let ?r4 = "get_response ?E JNull login_url (Some [Txt payload2]) ?w3"
  have sp: "second_payload ?E creds (JStr ''Y24='') (JStr ''Y3Y='') = Inr payload2"
    by (simp add: second_payload_def cred_def creds_def ebind_def test_env_def quote_plain_def
          payload2_def)
  have rc: "resolve_challenge ?E creds ''/config'' login_250 ?w1 = Some ?r4"
    by (simp add: resolve_challenge_def ld lp sp Let_def)
  have l3: "length (calls ?w3) = 2 * k + 3"
    using w2(1) by (simp add: log_def)
  have r3: "http ?E (length (calls ?w3)) = Body login_200"
    unfolding hE l3 by (simp add: patient_provider_def)
  have ok3: "fst ?r4 = Inr login_200"
    using r3 by (simp add: get_response_def log_def Let_def login_200_def)
  have "session_try ?E creds ''/config'' ?w = Some (connection_ok login_200 (snd ?r4))"
    using ok3 by (simp add: st rc case_prod_beta)
  then have g: "get_ecoledirecte_session ?E creds ''/config'' ?w =
                  Some (Inr (Some alice_session),
                        log INFO ''Connection OK - identifiant: [{%s}]'' [LJson (JStr ''alice'')]
                          (snd ?r4))"
    by (simp add: get_ecoledirecte_session_def connection_ok_alice)
  have "length (calls (snd ?r4)) = 2 * k + 4"
    by (simp add: get_response_calls l3)
  moreover have "files (snd ?r4) = files ?w" "events (snd ?r4) = events ?w"
    using w2(2,3) by (simp_all add: get_response_files get_response_events log_def)
  moreover have "events ?w = []"
    by (simp add: world_with_qcm_def)
  ultimately show ?thesis
    unfolding g by (simp add: log_def)
qed

text \<open>
  C1 fails on the code. The cache maps the question \<open>Q\<close> to the single answer \<open>42\<close>.
  When the provider turns every answer down, each pass ends with \<open>continue\<close> and leaves
  the retry counter at 5, so the loop never ends and \<open>get_ecoledirecte_session\<close> returns
  nothing, neither a session nor \<open>QCMError\<close>. When the provider turns the answer down six
  times and accepts it then, the loop makes seven passes and the handshake returns a
  session after sixteen requests.
\<close>

theorem rejected_answer_never_ends:
  "get_ecoledirecte_session (test_env rejecting_provider) creds ''/config''
     (world_with_qcm cache_Q_42) = None \<and>
   (\<exists>w'. get_ecoledirecte_session (test_env (patient_provider 6)) creds ''/config''
            (world_with_qcm cache_Q_42) = Some (Inr (Some alice_session), w') \<and>
          length (calls w') = 16)"
proof
  show "get_ecoledirecte_session (test_env rejecting_provider) creds ''/config''
          (world_with_qcm cache_Q_42) = None"
    by (simp add: get_ecoledirecte_session_def rejecting_try_diverges)
next
  from patient_run[of 6] obtain w' where
    "get_ecoledirecte_session (test_env (patient_provider 6)) creds ''/config''
       (world_with_qcm cache_Q_42) = Some (Inr (Some alice_session), w')"
    and "length (calls w') = 2 * 6 + 4"
    by blast
  then show "\<exists>w'. get_ecoledirecte_session (test_env (patient_provider 6)) creds ''/config''
                  (world_with_qcm cache_Q_42) = Some (Inr (Some alice_session), w') \<and>
                length (calls w') = 16"
    by auto
qed

end
